theory Spec2Isabelle
  imports Complex_Main "HOL-Library.Sublist" "HOL-Library.Log_Nat"
begin

section \<open>Values\<close>

text \<open>
  The module is Python 3: \<open>/\<close> is true division and \<open>math.ceil\<close> returns an \<open>int\<close>.
  A Python \<open>str\<close> is a sequence of Unicode code points; it is modelled as the list of
  its code points, so that the Cyrillic messages of the module are ordinary values.
  ASCII text is written with \<open>ascii\<close>.
\<close>

type_synonym pystr = "nat list"

definition ascii :: "string \<Rightarrow> pystr" where
  "ascii s = map of_char s"

text \<open>
  What \<open>response.json()\<close> and \<open>json.load\<close> return: \<open>None\<close>, \<open>bool\<close>, \<open>int\<close>,
  \<open>str\<close>, \<open>list\<close> and \<open>dict\<close> (keys are strings, kept in insertion order, each key
  once). Fractional numbers are not represented: the module only copies them (prices)
  or compares them for equality, where they behave like any other atom.
\<close>

datatype json =
    JNull
  | JBool bool
  | JInt int
  | JStr pystr
  | JArr "json list"
  | JObj "(pystr \<times> json) list"

datatype exn =
    KeyError
  | IndexError
  | TypeError
  | AttributeError
  | ZeroDivisionError
  | ValueError
  | OverflowError
  | IOError
  | ConnectionError
  | Timeout

text \<open>Sequencing of computations that may raise: the first exception wins.\<close>

fun bind :: "exn + 'a \<Rightarrow> ('a \<Rightarrow> exn + 'b) \<Rightarrow> exn + 'b" where
  "bind (Inl e) f = Inl e"
| "bind (Inr x) f = f x"

subsection \<open>Operators of the language, on these values\<close>

text \<open>\<open>a == b\<close>: \<open>bool\<close> is a subclass of \<open>int\<close>, dictionaries compare without order.\<close>

fun py_eq :: "json \<Rightarrow> json \<Rightarrow> bool" where
  "py_eq JNull JNull = True"
| "py_eq (JBool a) (JBool b) = (a = b)"
| "py_eq (JBool a) (JInt b) = ((if a then 1 else 0) = b)"
| "py_eq (JInt a) (JBool b) = (a = (if b then 1 else 0))"
| "py_eq (JInt a) (JInt b) = (a = b)"
| "py_eq (JStr a) (JStr b) = (a = b)"
| "py_eq (JArr xs) (JArr ys) = list_all2 py_eq xs ys"
| "py_eq (JObj xs) (JObj ys) =
     (length xs = length ys \<and>
      list_all (\<lambda>kv. case map_of ys (fst kv) of None \<Rightarrow> False | Some w \<Rightarrow> py_eq (snd kv) w) xs)"
| "py_eq _ _ = False"

text \<open>\<open>obj[key]\<close> with a string key.\<close>

fun getitem :: "json \<Rightarrow> pystr \<Rightarrow> exn + json" where
  "getitem (JObj kvs) k = (case map_of kvs k of None \<Rightarrow> Inl KeyError | Some v \<Rightarrow> Inr v)"
| "getitem _ k = Inl TypeError"

text \<open>\<open>obj[0]\<close>.\<close>

fun getitem0 :: "json \<Rightarrow> exn + json" where
  "getitem0 (JArr []) = Inl IndexError"
| "getitem0 (JArr (x # xs)) = Inr x"
| "getitem0 (JStr []) = Inl IndexError"
| "getitem0 (JStr (c # cs)) = Inr (JStr [c])"
| "getitem0 (JObj kvs) = Inl KeyError"
| "getitem0 _ = Inl TypeError"

text \<open>\<open>obj.get(key, default)\<close>: only a \<open>dict\<close> has the method.\<close>

fun get :: "json \<Rightarrow> pystr \<Rightarrow> json \<Rightarrow> exn + json" where
  "get (JObj kvs) k d = (case map_of kvs k of None \<Rightarrow> Inr d | Some v \<Rightarrow> Inr v)"
| "get _ k d = Inl AttributeError"

text \<open>
  \<open>x in container\<close>. In a list: equality with some element. In a dict: \<open>x\<close> is hashed
  (a list or dict is unhashable) and looked up among the keys. In a str: \<open>x\<close> must be a
  str and is searched as a substring. Anything else is not iterable.
\<close>

fun contains :: "json \<Rightarrow> json \<Rightarrow> exn + bool" where
  "contains (JArr xs) x = Inr (list_ex (py_eq x) xs)"
| "contains (JObj kvs) (JArr v) = Inl TypeError"
| "contains (JObj kvs) (JObj v) = Inl TypeError"
| "contains (JObj kvs) (JStr k) = Inr (k \<in> set (map fst kvs))"
| "contains (JObj kvs) x = Inr False"
| "contains (JStr s) (JStr x) = Inr (sublist x s)"
| "contains _ x = Inl TypeError"

text \<open>The elements a \<open>for\<close> loop visits, which are also what \<open>len\<close> counts.\<close>

fun iter :: "json \<Rightarrow> exn + json list" where
  "iter (JArr xs) = Inr xs"
| "iter (JObj kvs) = Inr (map (\<lambda>kv. JStr (fst kv)) kvs)"
| "iter (JStr s) = Inr (map (\<lambda>c. JStr [c]) s)"
| "iter _ = Inl TypeError"

text \<open>\<open>a + b\<close> where \<open>a\<close> is a str.\<close>

fun str_add :: "pystr \<Rightarrow> json \<Rightarrow> exn + pystr" where
  "str_add a (JStr b) = Inr (a @ b)"
| "str_add a _ = Inl TypeError"

text \<open>Decimal digits of a natural number, as \<open>'{}'.format\<close> prints a page number.\<close>

fun digits :: "nat \<Rightarrow> pystr" where
  "digits n = (if n < 10 then [48 + n] else digits (n div 10) @ [48 + n mod 10])"

declare digits.simps [simp del]

definition format_int :: "int \<Rightarrow> pystr" where
  "format_int i = (if i < 0 then 45 # digits (nat (- i)) else digits (nat i))"

text \<open>The value of a digit string, read as a decimal numeral.\<close>

definition decimal :: "pystr \<Rightarrow> nat" where
  "decimal ds = foldl (\<lambda>v d. 10 * v + (d - 48)) 0 ds"

subsection \<open>True division and \<open>math.ceil\<close>\<close>

text \<open>
  A \<open>float\<close> is a double; a finite double is represented by its exact value, a rational.
  \<open>round_half_even\<close> rounds to the nearest integer, a tie going to the even one.
\<close>

definition round_half_even :: "rat \<Rightarrow> int" where
  "round_half_even x =
     (let f = \<lfloor>x\<rfloor>; d = x - rat_of_int f
      in if d < 1 / 2 then f else if 1 / 2 < d then f + 1 else if even f then f else f + 1)"

text \<open>
  \<open>a / b\<close> on two \<open>int\<close>s, \<open>b\<close> not zero: the double nearest to the quotient (ties to
  even), or \<open>None\<close> where Python raises \<open>OverflowError\<close> because the quotient is too
  large for a double. With \<open>e\<close> the binary exponent of the quotient, not below that of the
  smallest normal double, the doubles around the quotient are the multiples of
  \<open>2 powi (e - 52)\<close>.
\<close>

definition true_div :: "int \<Rightarrow> int \<Rightarrow> rat option" where
  "true_div a b =
     (if a = 0 then Some 0
      else
        let q = rat_of_int a / rat_of_int b;
            e0 = bitlen \<bar>a\<bar> - bitlen \<bar>b\<bar>;
            e = max (if 2 powi e0 \<le> \<bar>q\<bar> then e0 else e0 - 1) (- 1022);
            ulp = 2 powi (e - 52);
            r = rat_of_int (round_half_even (\<bar>q\<bar> / ulp)) * ulp
        in if 2 powi 1024 \<le> r then None else Some (sgn q * r))"

text \<open>
  \<open>math.ceil(total / per_page)\<close>. A \<open>bool\<close> is an \<open>int\<close>; any other operand type
  raises before the divisor is looked at, a zero divisor before the division is tried.
\<close>

fun as_int :: "json \<Rightarrow> int option" where
  "as_int (JInt i) = Some i"
| "as_int (JBool b) = Some (if b then 1 else 0)"
| "as_int _ = None"

definition ceil_div :: "json \<Rightarrow> json \<Rightarrow> exn + int" where
  "ceil_div total' per_page =
     (case (as_int total', as_int per_page) of
        (Some a, Some b) \<Rightarrow>
          if b = 0 then Inl ZeroDivisionError
          else (case true_div a b of None \<Rightarrow> Inl OverflowError | Some q \<Rightarrow> Inr \<lceil>q\<rceil>)
      | _ \<Rightarrow> Inl TypeError)"

section \<open>The outside world\<close>

text \<open>
  An HTTP response: its status code and what \<open>response.json()\<close> gives (\<open>None\<close> when the
  body is not JSON, and the call raises \<open>ValueError\<close>).
\<close>

record response =
  status_code :: int
  body :: "json option"

text \<open>
  \<open>files\<close> is what \<open>load_json\<close> gives for a path (the parsed file, or the exception of
  \<open>open\<close> or \<open>json.load\<close>). \<open>remote\<close> answers a request for a URL, given the URLs
  requested before: a response, or the exception \<open>requests.get\<close> raises. \<open>requests\<close>
  is the log of URLs requested so far, \<open>stdout\<close> the exceptions printed so far.
\<close>

record world =
  files :: "pystr \<Rightarrow> exn + json"
  remote :: "pystr list \<Rightarrow> pystr \<Rightarrow> exn + response"
  requests :: "pystr list"
  stdout :: "exn list"

definition load_json :: "world \<Rightarrow> pystr \<Rightarrow> exn + json" where
  "load_json w source = files w source"

definition requests_get :: "world \<Rightarrow> pystr \<Rightarrow> (exn + response) \<times> world" where
  "requests_get w url = (remote w (requests w) url, w\<lparr>requests := requests w @ [url]\<rparr>)"

definition response_json :: "response \<Rightarrow> exn + json" where
  "response_json r = (case body r of None \<Rightarrow> Inl ValueError | Some j \<Rightarrow> Inr j)"

section \<open>The module\<close>

text \<open>The dictionary built for each relevant contract, with the module's key names.\<close>

record summary =
  CONTRACT_URL :: pystr
  CONTRACT_PRICE :: json
  PRODUCT_DESCRIPTION :: json
  PRODUCT_PRICE :: json
  NUM_PRODUCTS :: nat

text \<open>The three Cyrillic texts of the module, as code points.\<close>

definition not_found_phrase :: pystr where
  "not_found_phrase =
     [1053, 1077, 32, 1084, 1086, 1075, 1091, 32, 1085, 1072, 1081, 1090, 1080, 32,
      1087, 1086, 1089, 1090, 1072, 1074, 1097, 1080, 1082, 1072, 32, 1089, 32,
      1048, 1053, 1053]"

definition placeholder_name :: pystr where
  "placeholder_name = [1048, 1084, 1103, 1088, 1077, 1082]"

definition something_went_wrong :: pystr where
  "something_went_wrong =
     [1063, 1090, 1086, 45, 1090, 1086, 32, 1087, 1086, 1096, 1083, 1086, 32,
      1085, 1077, 32, 1090, 1072, 1082]"

definition not_found_message :: "pystr \<Rightarrow> pystr" where
  "not_found_message inn = not_found_phrase @ [32] @ inn"

subsection \<open>get_supplier_name\<close>

definition supplier_url :: "pystr \<Rightarrow> pystr" where
  "supplier_url inn =
     ascii ''http://openapi.clearspending.ru/restapi/v3/suppliers/get/?inn='' @ inn"

text \<open>The body of the \<open>try\<close> block.\<close>

definition get_supplier_name_try :: "world \<Rightarrow> pystr \<Rightarrow> (exn + json) \<times> world" where
  "get_supplier_name_try w inn =
     (case requests_get w (supplier_url inn) of (r, w') \<Rightarrow>
        (bind r (\<lambda>response.
           if status_code response = 404 then Inr (JStr (not_found_message inn))
           else
             bind (response_json response) (\<lambda>data.
             bind (getitem data (ascii ''suppliers'')) (\<lambda>s.
             bind (getitem s (ascii ''data'')) (\<lambda>d.
             bind (getitem0 d) (\<lambda>supplier.
             bind (get supplier (ascii ''allNames'') (JArr [JStr placeholder_name])) (\<lambda>names.
             getitem0 names)))))),
         w'))"

text \<open>
  \<open>except Exception as e: print(e)\<close>: the function then falls off its end and
  returns \<open>None\<close>.
\<close>

definition get_supplier_name :: "world \<Rightarrow> pystr \<Rightarrow> json \<times> world" where
  "get_supplier_name w inn =
     (case get_supplier_name_try w inn of
        (Inl e, w') \<Rightarrow> (JNull, w'\<lparr>stdout := stdout w' @ [e]\<rparr>)
      | (Inr name, w') \<Rightarrow> (name, w'))"

subsection \<open>filter_media_contracts\<close>

definition clearspending_base :: pystr where
  "clearspending_base = ascii ''https://clearspending.ru/contract/''"

text \<open>
  Lines 106 to 109: the two codes of a product (\<open>None\<close> when the field is not there)
  and the test \<open>okpd in okpd_ref or okpd2 in okpd2_ref\<close>, whose second operand is
  evaluated only when the first is false.
\<close>

definition relevant :: "json \<Rightarrow> json \<Rightarrow> json \<Rightarrow> exn + bool" where
  "relevant okpd_ref okpd2_ref product =
     bind (get product (ascii ''OKPD'') (JObj [])) (\<lambda>o1.
     bind (get o1 (ascii ''code'') JNull) (\<lambda>okpd.
     bind (get product (ascii ''OKPD2'') (JObj [])) (\<lambda>o2.
     bind (get o2 (ascii ''code'') JNull) (\<lambda>okpd2.
     bind (contains okpd_ref okpd) (\<lambda>hit.
       if hit then Inr True else contains okpd2_ref okpd2)))))"

text \<open>Lines 111 to 121: the dictionary for a relevant product; \<open>n\<close> is \<open>len(products)\<close>.\<close>

definition summarise :: "json \<Rightarrow> json \<Rightarrow> nat \<Rightarrow> exn + summary" where
  "summarise contract product n =
     bind (get contract (ascii ''price'') (JStr (ascii ''-''))) (\<lambda>contract_price.
     bind (get product (ascii ''sum'') (JStr (ascii ''-''))) (\<lambda>product_price.
     bind (get product (ascii ''name'') (JStr (ascii ''-''))) (\<lambda>product_description.
     bind (getitem contract (ascii ''regNum'')) (\<lambda>regnum.
     bind (str_add clearspending_base regnum) (\<lambda>contract_url.
       Inr \<lparr>CONTRACT_URL = contract_url,
            CONTRACT_PRICE = contract_price,
            PRODUCT_DESCRIPTION = product_description,
            PRODUCT_PRICE = product_price,
            NUM_PRODUCTS = n\<rparr>)))))"

text \<open>
  The inner loop over the products of one contract, with \<open>media_contracts\<close> the list
  being built: the first relevant product appends one summary and breaks.
\<close>

fun products_loop ::
  "json \<Rightarrow> json \<Rightarrow> json \<Rightarrow> nat \<Rightarrow> json list \<Rightarrow> summary list \<Rightarrow> exn + summary list" where
  "products_loop okpd_ref okpd2_ref contract n [] media_contracts = Inr media_contracts"
| "products_loop okpd_ref okpd2_ref contract n (product # rest) media_contracts =
     bind (relevant okpd_ref okpd2_ref product) (\<lambda>hit.
       if hit then
         bind (summarise contract product n) (\<lambda>s. Inr (media_contracts @ [s]))
       else products_loop okpd_ref okpd2_ref contract n rest media_contracts)"

text \<open>The outer loop over the contracts of the page.\<close>

fun contracts_loop ::
  "json \<Rightarrow> json \<Rightarrow> json list \<Rightarrow> summary list \<Rightarrow> exn + summary list" where
  "contracts_loop okpd_ref okpd2_ref [] media_contracts = Inr media_contracts"
| "contracts_loop okpd_ref okpd2_ref (contract # rest) media_contracts =
     bind (getitem contract (ascii ''products'')) (\<lambda>products.
     bind (iter products) (\<lambda>ps.
     bind (products_loop okpd_ref okpd2_ref contract (length ps) ps media_contracts)
       (\<lambda>media_contracts'. contracts_loop okpd_ref okpd2_ref rest media_contracts')))"

definition filter_media_contracts :: "world \<Rightarrow> json \<Rightarrow> exn + summary list" where
  "filter_media_contracts w contracts =
     bind (load_json w (ascii ''okpd_smi.json'')) (\<lambda>okpd_ref.
     bind (load_json w (ascii ''okpd2_smi.json'')) (\<lambda>okpd2_ref.
     bind (iter contracts) (\<lambda>cs.
       contracts_loop okpd_ref okpd2_ref cs [])))"

subsection \<open>get_contracts_by_inn\<close>

text \<open>What the function returns: a plain value (a message), or the triple.\<close>

datatype outcome =
    Plain json
  | Triple json json "summary list"

definition contracts_url :: "pystr \<Rightarrow> pystr" where
  "contracts_url inn =
     ascii ''http://openapi.clearspending.ru/restapi/v3/contracts/select/?supplierinn='' @ inn
       @ ascii ''&sort=-signDate''"

definition page_url :: "pystr \<Rightarrow> int \<Rightarrow> pystr" where
  "page_url url page = url @ ascii ''&page='' @ format_int page"

text \<open>Lines 85 and 86, and the call of line 87: one page requested and filtered.\<close>

definition fetch_page :: "world \<Rightarrow> pystr \<Rightarrow> int \<Rightarrow> (exn + summary list) \<times> world" where
  "fetch_page w url page =
     (case requests_get w (page_url url page) of (r, w') \<Rightarrow>
        (bind r (\<lambda>response.
         bind (response_json response) (\<lambda>j.
         bind (getitem j (ascii ''contracts'')) (\<lambda>c.
         bind (getitem c (ascii ''data'')) (\<lambda>contracts.
           filter_media_contracts w' contracts)))),
         w'))"

text \<open>
  The loop \<open>for page in range(1, int(num_pages) + 1)\<close> over the pages still to fetch,
  extending \<open>all_media_contracts\<close>.
\<close>

fun pages_loop ::
  "world \<Rightarrow> pystr \<Rightarrow> int list \<Rightarrow> summary list \<Rightarrow> (exn + summary list) \<times> world" where
  "pages_loop w url [] all_media_contracts = (Inr all_media_contracts, w)"
| "pages_loop w url (page # rest) all_media_contracts =
     (case fetch_page w url page of
        (Inl e, w') \<Rightarrow> (Inl e, w')
      | (Inr found, w') \<Rightarrow> pages_loop w' url rest (all_media_contracts @ found))"

definition get_contracts_by_inn :: "world \<Rightarrow> pystr \<Rightarrow> (exn + outcome) \<times> world" where
  "get_contracts_by_inn w inn =
     (case get_supplier_name w inn of (supplier_name, w1) \<Rightarrow>
        if supplier_name = JNull then (Inr (Plain (JStr something_went_wrong)), w1)
        else
          (case contains supplier_name (JStr not_found_phrase) of
             Inl e \<Rightarrow> (Inl e, w1)
           | Inr True \<Rightarrow> (Inr (Plain supplier_name), w1)
           | Inr False \<Rightarrow>
               (case requests_get w1 (contracts_url inn) of (r, w2) \<Rightarrow>
                  (case bind r (\<lambda>response.
                          bind (response_json response) (\<lambda>j.
                          bind (getitem j (ascii ''contracts'')) (\<lambda>data.
                          bind (getitem data (ascii ''total'')) (\<lambda>total'.
                          bind (getitem data (ascii ''perpage'')) (\<lambda>per_page.
                          bind (ceil_div total' per_page) (\<lambda>num_pages.
                            Inr (total', num_pages))))))) of
                     Inl e \<Rightarrow> (Inl e, w2)
                   | Inr (total', num_pages) \<Rightarrow>
                       (case pages_loop w2 (contracts_url inn) [1..num_pages] [] of
                          (Inl e, w3) \<Rightarrow> (Inl e, w3)
                        | (Inr all_media_contracts, w3) \<Rightarrow>
                            (Inr (Triple supplier_name total' all_media_contracts), w3))))))"

section \<open>Notions used to state the properties\<close>

text \<open>
  Following the specification (4.3): the first product of a contract that matches, and
  what one contract contributes to the output of the filter, which is nothing or the one
  summary built from that product.
\<close>

definition first_relevant :: "json \<Rightarrow> json \<Rightarrow> json list \<Rightarrow> json option" where
  "first_relevant okpd_ref okpd2_ref ps =
     find (\<lambda>p. relevant okpd_ref okpd2_ref p = Inr True) ps"

definition media_summary :: "json \<Rightarrow> json \<Rightarrow> json \<Rightarrow> summary list" where
  "media_summary okpd_ref okpd2_ref contract =
     (case bind (getitem contract (ascii ''products'')) iter of
        Inl e \<Rightarrow> []
      | Inr ps \<Rightarrow>
          (case first_relevant okpd_ref okpd2_ref ps of
             None \<Rightarrow> []
           | Some p \<Rightarrow>
               (case summarise contract p (length ps) of Inl e \<Rightarrow> [] | Inr s \<Rightarrow> [s])))"

text \<open>Lines 114 and 115 alone: the URL of the card of a contract.\<close>

definition contract_url :: "json \<Rightarrow> exn + pystr" where
  "contract_url contract =
     bind (getitem contract (ascii ''regNum'')) (str_add clearspending_base)"

text \<open>
  A reference set as the filter can use it without raising on a missing code: a list or
  a dict, here with no \<open>null\<close> among its entries.
\<close>

fun null_free :: "json \<Rightarrow> bool" where
  "null_free (JArr xs) = (JNull \<notin> set xs)"
| "null_free (JObj kvs) = True"
| "null_free _ = False"

text \<open>
  A product that carries no code under the given field: the field is not there, or it
  is a dict without \<open>code\<close>.
\<close>

definition no_code :: "(pystr \<times> json) list \<Rightarrow> pystr \<Rightarrow> bool" where
  "no_code kvs k =
     (case map_of kvs k of
        None \<Rightarrow> True
      | Some (JObj o1) \<Rightarrow> map_of o1 (ascii ''code'') = None
      | Some _ \<Rightarrow> False)"

text \<open>
  What the filter relies on. A reference set is a list or a dict. It can be asked about
  a value when the membership test does not raise: a list about any value, a dict about
  any value that can be hashed, which is any but a list or a dict.
\<close>

fun is_set :: "json \<Rightarrow> bool" where
  "is_set (JArr xs) = True"
| "is_set (JObj kvs) = True"
| "is_set _ = False"

fun hashable :: "json \<Rightarrow> bool" where
  "hashable (JArr xs) = False"
| "hashable (JObj kvs) = False"
| "hashable _ = True"

fun askable :: "json \<Rightarrow> json \<Rightarrow> bool" where
  "askable (JArr xs) x = True"
| "askable (JObj kvs) x = hashable x"
| "askable _ x = False"

text \<open>
  A product is a dict whose \<open>OKPD\<close> and \<open>OKPD2\<close> fields, where present, are dicts whose
  \<open>code\<close>, where present, the reference set of that scheme can be asked about. A contract
  is a dict with a list of such products, and with a str registry number if one of them is
  relevant. Nothing is asked of \<open>price\<close>, \<open>sum\<close> or \<open>name\<close>, and no field of a product
  has to be there.
\<close>

definition code_ok :: "json \<Rightarrow> (pystr \<times> json) list \<Rightarrow> pystr \<Rightarrow> bool" where
  "code_ok ref kvs k =
     (case map_of kvs k of
        None \<Rightarrow> True
      | Some (JObj o1) \<Rightarrow>
          (case map_of o1 (ascii ''code'') of None \<Rightarrow> True | Some v \<Rightarrow> askable ref v)
      | Some _ \<Rightarrow> False)"

fun product_shaped :: "json \<Rightarrow> json \<Rightarrow> json \<Rightarrow> bool" where
  "product_shaped okpd_ref okpd2_ref (JObj kvs) =
     (code_ok okpd_ref kvs (ascii ''OKPD'') \<and> code_ok okpd2_ref kvs (ascii ''OKPD2''))"
| "product_shaped okpd_ref okpd2_ref _ = False"

fun contract_shaped :: "json \<Rightarrow> json \<Rightarrow> json \<Rightarrow> bool" where
  "contract_shaped okpd_ref okpd2_ref (JObj kvs) =
     (case map_of kvs (ascii ''products'') of
        Some (JArr ps) \<Rightarrow>
          list_all (product_shaped okpd_ref okpd2_ref) ps
          \<and> (list_ex (\<lambda>p. relevant okpd_ref okpd2_ref p = Inr True) ps \<longrightarrow>
               (case map_of kvs (ascii ''regNum'') of Some (JStr r) \<Rightarrow> True | _ \<Rightarrow> False))
      | _ \<Rightarrow> False)"
| "contract_shaped okpd_ref okpd2_ref _ = False"

text \<open>\<open>d.get(k, '-')\<close> on the fields of a dict.\<close>

definition or_dash :: "(pystr \<times> json) list \<Rightarrow> pystr \<Rightarrow> json" where
  "or_dash kvs k = (case map_of kvs k of None \<Rightarrow> JStr (ascii ''-'') | Some v \<Rightarrow> v)"

text \<open>
  Following the specification (4.3, 7): what one contract contributes, written out. It is
  nothing, or the one summary of the first relevant product, where the URL is the base
  URL and the registry number, each of contract price, product description and product
  price is the field or else \<open>'-'\<close>, and the count is the length of the product list.
\<close>

definition dashed_summary :: "json \<Rightarrow> json \<Rightarrow> json \<Rightarrow> summary list" where
  "dashed_summary okpd_ref okpd2_ref contract =
     (case contract of
        JObj ckvs \<Rightarrow>
          (case map_of ckvs (ascii ''products'') of
             Some (JArr ps) \<Rightarrow>
               (case find (\<lambda>p. relevant okpd_ref okpd2_ref p = Inr True) ps of
                  Some (JObj pkvs) \<Rightarrow>
                    (case map_of ckvs (ascii ''regNum'') of
                       Some (JStr regnum) \<Rightarrow>
                         [\<lparr>CONTRACT_URL = ascii ''https://clearspending.ru/contract/'' @ regnum,
                           CONTRACT_PRICE = or_dash ckvs (ascii ''price''),
                           PRODUCT_DESCRIPTION = or_dash pkvs (ascii ''name''),
                           PRODUCT_PRICE = or_dash pkvs (ascii ''sum''),
                           NUM_PRODUCTS = length ps\<rparr>]
                     | _ \<Rightarrow> [])
                | _ \<Rightarrow> [])
           | _ \<Rightarrow> [])
      | _ \<Rightarrow> [])"

text \<open>
  What one contract contributes, as a relation: nothing when no product of it is
  relevant, and otherwise one summary, whose fields are read from the contract and from
  the first relevant product.
\<close>

definition contributes :: "json \<Rightarrow> json \<Rightarrow> json \<Rightarrow> summary list \<Rightarrow> bool" where
  "contributes okpd_ref okpd2_ref c ss =
     (\<exists>ps. bind (getitem c (ascii ''products'')) iter = Inr ps
        \<and> (list_all (\<lambda>q. relevant okpd_ref okpd2_ref q = Inr False) ps \<and> ss = []
           \<or> (\<exists>pre p post s regnum.
                 ps = pre @ p # post
               \<and> list_all (\<lambda>q. relevant okpd_ref okpd2_ref q = Inr False) pre
               \<and> relevant okpd_ref okpd2_ref p = Inr True
               \<and> ss = [s]
               \<and> get p (ascii ''name'') (JStr (ascii ''-'')) = Inr (PRODUCT_DESCRIPTION s)
               \<and> get p (ascii ''sum'') (JStr (ascii ''-'')) = Inr (PRODUCT_PRICE s)
               \<and> get c (ascii ''price'') (JStr (ascii ''-'')) = Inr (CONTRACT_PRICE s)
               \<and> getitem c (ascii ''regNum'') = Inr (JStr regnum)
               \<and> CONTRACT_URL s = ascii ''https://clearspending.ru/contract/'' @ regnum
               \<and> NUM_PRODUCTS s = length ps)))"

section \<open>Sample data\<close>

definition sample_inn :: pystr where
  "sample_inn = ascii ''7826159654''"

definition okpd_smi :: json where
  "okpd_smi = JArr [JStr (ascii ''22.12.1''), JStr (ascii ''92.20.1'')]"

definition okpd2_smi :: json where
  "okpd2_smi = JArr [JStr (ascii ''58.13.1''), JStr (ascii ''60.10.1'')]"

definition sample_files :: "pystr \<Rightarrow> exn + json" where
  "sample_files source =
     (if source = ascii ''okpd_smi.json'' then Inr okpd_smi
      else if source = ascii ''okpd2_smi.json'' then Inr okpd2_smi
      else Inl IOError)"

text \<open>Two relevant products, the first under OKPD and the second under OKPD2.\<close>

definition newspapers :: json where
  "newspapers =
     JObj [(ascii ''OKPD'', JObj [(ascii ''code'', JStr (ascii ''22.12.1''))]),
           (ascii ''name'', JStr (ascii ''newspapers'')),
           (ascii ''sum'', JInt 600)]"

definition broadcast :: json where
  "broadcast =
     JObj [(ascii ''OKPD2'', JObj [(ascii ''code'', JStr (ascii ''60.10.1''))]),
           (ascii ''name'', JStr (ascii ''broadcast'')),
           (ascii ''sum'', JInt 400)]"

text \<open>A product under a code of no interest, one with no code, one with no name or sum.\<close>

definition coal :: json where
  "coal =
     JObj [(ascii ''OKPD'', JObj [(ascii ''code'', JStr (ascii ''10.10.1''))]),
           (ascii ''name'', JStr (ascii ''coal'')),
           (ascii ''sum'', JInt 50)]"

definition uncoded :: json where
  "uncoded = JObj [(ascii ''name'', JStr (ascii ''sundries''))]"

definition bare_journal :: json where
  "bare_journal = JObj [(ascii ''OKPD2'', JObj [(ascii ''code'', JStr (ascii ''58.13.1''))])]"

definition contract_a :: json where
  "contract_a =
     JObj [(ascii ''regNum'', JStr (ascii ''0173100000114000001'')),
           (ascii ''price'', JInt 1000),
           (ascii ''products'', JArr [newspapers, broadcast])]"

definition contract_b :: json where
  "contract_b =
     JObj [(ascii ''regNum'', JStr (ascii ''0173100000114000002'')),
           (ascii ''price'', JInt 50),
           (ascii ''products'', JArr [coal])]"

text \<open>No price, and the relevant product has neither name nor sum.\<close>

definition contract_c :: json where
  "contract_c =
     JObj [(ascii ''regNum'', JStr (ascii ''0173100000114000003'')),
           (ascii ''products'', JArr [uncoded, bare_journal])]"

text \<open>The last entry of the product list is not even a dict.\<close>

definition contract_d :: json where
  "contract_d =
     JObj [(ascii ''regNum'', JStr (ascii ''0173100000114000005'')),
           (ascii ''price'', JInt 900),
           (ascii ''products'', JArr [coal, newspapers, JNull])]"

definition contract_without_products :: json where
  "contract_without_products =
     JObj [(ascii ''regNum'', JStr (ascii ''0173100000114000004'')),
           (ascii ''price'', JInt 7)]"

definition contract_without_regnum :: json where
  "contract_without_regnum =
     JObj [(ascii ''price'', JInt 7), (ascii ''products'', JArr [newspapers])]"

definition summary_a :: summary where
  "summary_a =
     \<lparr>CONTRACT_URL = clearspending_base @ ascii ''0173100000114000001'',
      CONTRACT_PRICE = JInt 1000,
      PRODUCT_DESCRIPTION = JStr (ascii ''newspapers''),
      PRODUCT_PRICE = JInt 600,
      NUM_PRODUCTS = 2\<rparr>"

definition summary_c :: summary where
  "summary_c =
     \<lparr>CONTRACT_URL = clearspending_base @ ascii ''0173100000114000003'',
      CONTRACT_PRICE = JStr (ascii ''-''),
      PRODUCT_DESCRIPTION = JStr (ascii ''-''),
      PRODUCT_PRICE = JStr (ascii ''-''),
      NUM_PRODUCTS = 2\<rparr>"

definition summary_d :: summary where
  "summary_d =
     \<lparr>CONTRACT_URL = clearspending_base @ ascii ''0173100000114000005'',
      CONTRACT_PRICE = JInt 900,
      PRODUCT_DESCRIPTION = JStr (ascii ''newspapers''),
      PRODUCT_PRICE = JInt 600,
      NUM_PRODUCTS = 3\<rparr>"

text \<open>Responses of the registry.\<close>

definition ok :: "json \<Rightarrow> exn + response" where
  "ok j = Inr \<lparr>status_code = 200, body = Some j\<rparr>"

definition supplier_response :: "json \<Rightarrow> json" where
  "supplier_response supplier = JObj [(ascii ''suppliers'', JObj [(ascii ''data'', JArr [supplier])])]"

definition contracts_response :: "int \<Rightarrow> int \<Rightarrow> json list \<Rightarrow> json" where
  "contracts_response t pp cs =
     JObj [(ascii ''contracts'',
            JObj [(ascii ''total'', JInt t), (ascii ''perpage'', JInt pp),
                  (ascii ''data'', JArr cs)])]"

text \<open>A registry that knows no supplier.\<close>

definition registry_404 :: world where
  "registry_404 =
     \<lparr>files = sample_files,
      remote = (\<lambda>earlier url. Inr \<lparr>status_code = 404, body = None\<rparr>),
      requests = [], stdout = []\<rparr>"

text \<open>A registry that does not answer.\<close>

definition registry_down :: world where
  "registry_down =
     \<lparr>files = sample_files, remote = (\<lambda>earlier url. Inl Timeout), requests = [], stdout = []\<rparr>"

text \<open>A registry whose supplier record has an empty list of names.\<close>

definition registry_no_names :: world where
  "registry_no_names =
     \<lparr>files = sample_files,
      remote = (\<lambda>earlier url. ok (supplier_response (JObj [(ascii ''allNames'', JArr [])]))),
      requests = [], stdout = []\<rparr>"

text \<open>A supplier whose registered name contains the phrase of the not-found message.\<close>

definition odd_name :: pystr where
  "odd_name = ascii ''OOO '' @ not_found_phrase"

definition registry_odd_name :: world where
  "registry_odd_name =
     \<lparr>files = sample_files,
      remote = (\<lambda>earlier url. ok (supplier_response (JObj [(ascii ''allNames'', JArr [JStr odd_name])]))),
      requests = [], stdout = []\<rparr>"

text \<open>
  A registry that answers the first request (the supplier lookup) and fails on every
  later one.
\<close>

definition contracts_down :: world where
  "contracts_down =
     \<lparr>files = sample_files,
      remote = (\<lambda>earlier url.
        if earlier = [] then ok (supplier_response (JObj [(ascii ''allNames'', JArr [JStr (ascii ''RZD'')])]))
        else Inl ConnectionError),
      requests = [], stdout = []\<rparr>"

text \<open>
  A supplier with 250 contracts, 100 to a page. The answers go by the number of requests
  made before: the lookup, the first contracts request, then the pages, of which the
  first holds contracts A and B, the second contract C and the others contract D.
\<close>

definition media_remote :: "pystr list \<Rightarrow> pystr \<Rightarrow> exn + response" where
  "media_remote earlier url =
     (if length earlier = 0 then
        ok (supplier_response (JObj [(ascii ''allNames'', JArr [JStr (ascii ''RZD''), JStr (ascii ''RZhD'')])]))
      else if length earlier = 1 then ok (contracts_response 250 100 [contract_a, contract_b])
      else if length earlier = 2 then ok (contracts_response 250 100 [contract_a, contract_b])
      else if length earlier = 3 then ok (contracts_response 250 100 [contract_c])
      else ok (contracts_response 250 100 [contract_d]))"

definition media_world :: world where
  "media_world = \<lparr>files = sample_files, remote = media_remote, requests = [], stdout = []\<rparr>"

text \<open>
  A supplier reported with \<open>2 ^ 53 + 1\<close> contracts, \<open>2 ^ 53\<close> to a page, every page empty.
\<close>

definition huge_remote :: "pystr list \<Rightarrow> pystr \<Rightarrow> exn + response" where
  "huge_remote earlier url =
     (if length earlier = 0 then
        ok (supplier_response (JObj [(ascii ''allNames'', JArr [JStr (ascii ''RZD'')])]))
      else ok (contracts_response 9007199254740993 9007199254740992 []))"

definition huge_world :: world where
  "huge_world = \<lparr>files = sample_files, remote = huge_remote, requests = [], stdout = []\<rparr>"

text \<open>The same files seen after some unrelated traffic, with the registry gone.\<close>

definition later_world :: world where
  "later_world =
     \<lparr>files = sample_files, remote = (\<lambda>earlier url. Inl Timeout),
      requests = [supplier_url sample_inn], stdout = [Timeout]\<rparr>"

section \<open>Basic facts\<close>

lemma ascii_eq_iff [simp]: "ascii s = ascii t \<longleftrightarrow> s = t"
  unfolding ascii_def by (simp add: inj_map_eq_map inj_on_def)

lemma bind_Inr_iff: "bind m f = Inr y \<longleftrightarrow> (\<exists>x. m = Inr x \<and> f x = Inr y)"
  by (cases m) auto

lemma bind_Inl_iff: "bind m f = Inl e \<longleftrightarrow> (m = Inl e \<or> (\<exists>x. m = Inr x \<and> f x = Inl e))"
  by (cases m) auto

lemma py_eq_JNull [simp]: "py_eq JNull x \<longleftrightarrow> x = JNull"
  by (cases x) simp_all

subsection \<open>The double quotient\<close>

text \<open>
  Rounding a quotient \<open>a / b\<close> to a multiple of \<open>1 / K\<close> keeps its floor and its ceiling
  when \<open>b < 2 * K\<close>; so the double quotient of two integers below \<open>2 ^ 53\<close> in absolute
  value has the ceiling of the exact quotient.
\<close>

lemma round_floor: "\<lfloor>x\<rfloor> \<le> round_half_even x" "round_half_even x \<le> \<lfloor>x\<rfloor> + 1"
  by (simp_all add: round_half_even_def Let_def)

lemma round_int [simp]: "round_half_even (rat_of_int N) = N"
  by (simp add: round_half_even_def)

lemma round_ge:
  assumes "rat_of_int N \<le> x"
  shows "N \<le> round_half_even x"
proof -
  from assms have "N \<le> \<lfloor>x\<rfloor>" by (simp add: le_floor_iff)
  with round_floor(1) [of x] show ?thesis by linarith
qed

lemma round_le:
  assumes "x \<le> rat_of_int N"
  shows "round_half_even x \<le> N"
proof (cases "x = rat_of_int \<lfloor>x\<rfloor>")
  case True
  then have "round_half_even x = \<lfloor>x\<rfloor>" by (metis round_int)
  moreover from assms have "\<lfloor>x\<rfloor> \<le> N" by (simp add: floor_le_iff)
  ultimately show ?thesis by simp
next
  case False
  then have "rat_of_int \<lfloor>x\<rfloor> < x" using of_int_floor_le [of x] by linarith
  with assms have "rat_of_int \<lfloor>x\<rfloor> < rat_of_int N" by linarith
  then have "\<lfloor>x\<rfloor> + 1 \<le> N" by simp
  with round_floor(2) [of x] show ?thesis by linarith
qed

lemma round_gt:
  assumes "rat_of_int N + 1 / 2 < x"
  shows "N + 1 \<le> round_half_even x"
proof -
  from assms have "rat_of_int N \<le> x" by linarith
  then have f: "N \<le> \<lfloor>x\<rfloor>" by (simp add: le_floor_iff)
  show ?thesis
  proof (cases "\<lfloor>x\<rfloor> = N")
    case True
    with assms have "1 / 2 < x - rat_of_int \<lfloor>x\<rfloor>" by simp
    then have "round_half_even x = \<lfloor>x\<rfloor> + 1"
      by (simp add: round_half_even_def Let_def)
    with True show ?thesis by simp
  next
    case False
    with f round_floor(1) [of x] show ?thesis by linarith
  qed
qed

lemma round_lt:
  assumes "x < rat_of_int N - 1 / 2"
  shows "round_half_even x \<le> N - 1"
proof -
  from assms of_int_floor_le [of x] have "rat_of_int \<lfloor>x\<rfloor> < rat_of_int N" by linarith
  then have f: "\<lfloor>x\<rfloor> \<le> N - 1" by simp
  show ?thesis
  proof (cases "\<lfloor>x\<rfloor> = N - 1")
    case True
    with assms have "x - rat_of_int \<lfloor>x\<rfloor> < 1 / 2" by simp
    then have "round_half_even x = \<lfloor>x\<rfloor>"
      by (simp add: round_half_even_def Let_def)
    with True show ?thesis by simp
  next
    case False
    with f round_floor(2) [of x] show ?thesis by linarith
  qed
qed

lemma scaled_round_keeps_floor_ceiling:
  fixes a b K :: int
  assumes "0 < a" "0 < b" "0 < K" "b < 2 * K"
  defines "p \<equiv> rat_of_int a / rat_of_int b"
  defines "r \<equiv> rat_of_int (round_half_even (p * rat_of_int K)) / rat_of_int K"
  shows "\<lfloor>r\<rfloor> = \<lfloor>p\<rfloor> \<and> \<lceil>r\<rceil> = \<lceil>p\<rceil>"
proof (cases "p = rat_of_int \<lfloor>p\<rfloor>")
  case True
  then have "p * rat_of_int K = rat_of_int (\<lfloor>p\<rfloor> * K)" by simp
  then have "round_half_even (p * rat_of_int K) = \<lfloor>p\<rfloor> * K" by (metis round_int)
  with assms(3) have "r = rat_of_int \<lfloor>p\<rfloor>" by (simp add: r_def)
  with True show ?thesis by simp
next
  case False
  let ?j = "\<lfloor>p\<rfloor>"
  let ?m = "round_half_even (p * rat_of_int K)"
  have bK: "0 < rat_of_int b" "0 < rat_of_int K" using assms by simp_all
  have pb: "p * rat_of_int b = rat_of_int a" using bK by (simp add: p_def)
  have far: "1 \<le> \<bar>rat_of_int a - rat_of_int t * rat_of_int b\<bar>" if "p \<noteq> rat_of_int t" for t
  proof -
    have "a - t * b \<noteq> 0"
    proof
      assume "a - t * b = 0"
      then have "rat_of_int a = rat_of_int t * rat_of_int b" by (metis eq_iff_diff_eq_0 of_int_mult)
      with pb bK have "p = rat_of_int t" by simp
      with that show False by simp
    qed
    then have "1 \<le> \<bar>a - t * b\<bar>" by linarith
    then have "rat_of_int 1 \<le> rat_of_int \<bar>a - t * b\<bar>" by (simp only: of_int_le_iff)
    then show ?thesis by simp
  qed
  have half: "1 / 2 < rat_of_int K / rat_of_int b"
    using assms(2,4) bK by (simp add: field_simps)
  have lo: "rat_of_int ?j < p" using False of_int_floor_le [of p] by linarith
  have hi: "p < rat_of_int (?j + 1)" using floor_correct [of p] by simp
  have ne: "p \<noteq> rat_of_int (?j + 1)" using hi by simp
  have "1 \<le> rat_of_int a - rat_of_int ?j * rat_of_int b"
    using far [OF False] lo pb bK
    by (smt (verit, ccfv_SIG) abs_of_nonneg diff_ge_0_iff_ge mult_le_cancel_right_pos order_less_imp_le)
  then have "1 / rat_of_int b \<le> p - rat_of_int ?j"
    using bK by (simp add: p_def field_simps)
  then have "(1 / rat_of_int b) * rat_of_int K \<le> (p - rat_of_int ?j) * rat_of_int K"
    using bK by (intro mult_right_mono) simp_all
  then have "rat_of_int K / rat_of_int b \<le> (p - rat_of_int ?j) * rat_of_int K"
    by simp
  with half have "1 / 2 < (p - rat_of_int ?j) * rat_of_int K" by linarith
  moreover have "(p - rat_of_int ?j) * rat_of_int K = p * rat_of_int K - rat_of_int (?j * K)"
    by (simp add: algebra_simps)
  ultimately have "rat_of_int (?j * K) + 1 / 2 < p * rat_of_int K" by linarith
  then have m_lo: "?j * K + 1 \<le> ?m" by (rule round_gt)
  have "1 \<le> rat_of_int (?j + 1) * rat_of_int b - rat_of_int a"
    using far [OF ne] hi pb bK
    by (smt (verit, ccfv_SIG) abs_of_nonpos diff_le_0_iff_le minus_diff_eq mult_le_cancel_right_pos order_less_imp_le)
  then have "1 / rat_of_int b \<le> rat_of_int (?j + 1) - p"
    using bK by (simp add: p_def field_simps)
  then have "(1 / rat_of_int b) * rat_of_int K \<le> (rat_of_int (?j + 1) - p) * rat_of_int K"
    using bK by (intro mult_right_mono) simp_all
  then have "rat_of_int K / rat_of_int b \<le> (rat_of_int (?j + 1) - p) * rat_of_int K"
    by simp
  with half have "1 / 2 < (rat_of_int (?j + 1) - p) * rat_of_int K" by linarith
  moreover have "(rat_of_int (?j + 1) - p) * rat_of_int K =
      rat_of_int ((?j + 1) * K) - p * rat_of_int K"
    by (simp add: algebra_simps)
  ultimately have "p * rat_of_int K < rat_of_int ((?j + 1) * K) - 1 / 2" by linarith
  then have m_hi: "?m \<le> (?j + 1) * K - 1" by (rule round_lt)
  from m_lo have "rat_of_int (?j * K + 1) \<le> rat_of_int ?m" by (simp only: of_int_le_iff)
  then have r_lo: "rat_of_int ?j < r" using bK by (simp add: r_def field_simps)
  from m_hi have "rat_of_int ?m \<le> rat_of_int ((?j + 1) * K - 1)" by (simp only: of_int_le_iff)
  then have r_hi: "r < rat_of_int (?j + 1)" using bK by (simp add: r_def field_simps)
  from r_lo r_hi have "\<lfloor>r\<rfloor> = ?j" by (simp add: floor_unique)
  moreover from r_lo r_hi have "\<lceil>r\<rceil> = ?j + 1" by (simp add: ceiling_unique)
  moreover from lo hi have "\<lceil>p\<rceil> = ?j + 1" by (simp add: ceiling_unique)
  ultimately show ?thesis by simp
qed


lemma bitlen_range:
  assumes "0 < x" "x < 2 ^ 53"
  shows "1 \<le> bitlen x" "bitlen x \<le> 53"
proof -
  from assms(1) show "1 \<le> bitlen x"
    using bitlen_eq_zero_iff [of x] bitlen_nonneg [of x] by linarith
  from assms(2) show "bitlen x \<le> 53"
    by (simp add: bitlen_le_iff_power)
qed

lemma binade_lower:
  fixes A B :: int
  assumes "0 < A" "0 < B"
  shows "(2::rat) powi (bitlen A - bitlen B - 1) \<le> rat_of_int A / rat_of_int B"
proof -
  have la: "1 \<le> bitlen A" and lb: "1 \<le> bitlen B"
    using assms bitlen_eq_zero_iff [of A] bitlen_eq_zero_iff [of B]
      bitlen_nonneg [of A] bitlen_nonneg [of B] by linarith+
  from bitlen_bounds [OF assms(1)] have "2 ^ nat (bitlen A - 1) \<le> A" by simp
  then have "rat_of_int (2 ^ nat (bitlen A - 1)) \<le> rat_of_int A" by (simp only: of_int_le_iff)
  then have A: "(2::rat) powi (bitlen A - 1) \<le> rat_of_int A"
    using la by (simp add: power_int_def)
  from bitlen_bounds [OF assms(2)] have "B < 2 ^ nat (bitlen B)" by simp
  then have "rat_of_int B < rat_of_int (2 ^ nat (bitlen B))" by (simp only: of_int_less_iff)
  then have B: "rat_of_int B \<le> (2::rat) powi (bitlen B)"
    using lb by (simp add: power_int_def)
  have "(2::rat) powi (bitlen A - bitlen B - 1) = 2 powi (bitlen A - 1) / 2 powi (bitlen B)"
    by (simp add: power_int_diff [symmetric] algebra_simps)
  also have "\<dots> \<le> rat_of_int A / 2 powi (bitlen B)"
    using A by (simp add: divide_right_mono)
  also have "\<dots> \<le> rat_of_int A / rat_of_int B"
    using B assms by (intro divide_left_mono) simp_all
  finally show ?thesis .
qed

lemma true_div_exact:
  assumes "a \<noteq> 0" "b \<noteq> 0" "\<bar>a\<bar> < 2 ^ 53" "\<bar>b\<bar> < 2 ^ 53"
  shows "\<exists>r. true_div a b = Some r
           \<and> \<lceil>r\<rceil> = \<lceil>rat_of_int a / rat_of_int b\<rceil>"
proof -
  define q where "q = rat_of_int a / rat_of_int b"
  define A B where "A = \<bar>a\<bar>" and "B = \<bar>b\<bar>"
  define p where "p = rat_of_int A / rat_of_int B"
  define e0 where "e0 = bitlen A - bitlen B"
  define e where "e = (if 2 powi e0 \<le> p then e0 else e0 - 1)"
  define K :: int where "K = 2 ^ nat (52 - e)"
  define r0 where "r0 = rat_of_int (round_half_even (p * rat_of_int K)) / rat_of_int K"
  have AB: "0 < A" "0 < B" "A < 2 ^ 53" "B < 2 ^ 53"
    using assms by (simp_all add: A_def B_def)
  have p: "p = \<bar>q\<bar>" by (simp add: p_def q_def A_def B_def)
  have ppos: "0 < p" using AB by (simp add: p_def)
  have e0: "- 52 \<le> e0" "e0 \<le> 52"
    using bitlen_range [OF AB(1,3)] bitlen_range [OF AB(2,4)] by (simp_all add: e0_def)
  then have e: "- 53 \<le> e" "e \<le> 52" by (simp_all add: e_def)
  then have clamp: "max e (- 1022) = e" by simp
  have low: "2 powi e \<le> p"
    using binade_lower [OF AB(1,2)] by (simp add: e_def e0_def p_def)
  have K: "0 < K" by (simp add: K_def)
  have Kp: "rat_of_int K = 2 powi (52 - e)"
    using e by (simp add: K_def power_int_def)
  have ulp: "(2::rat) powi (e - 52) = 1 / rat_of_int K"
    using power_int_minus_divide [of "2::rat" "52 - e"] by (simp add: Kp)
  have "rat_of_int B * 2 powi e \<le> rat_of_int A"
    using low AB by (simp add: p_def field_simps)
  also have "\<dots> < 2 ^ 53" using AB(3) by (metis of_int_less_iff of_int_numeral of_int_power)
  finally have "rat_of_int B < 2 ^ 53 / 2 powi e"
    by (simp add: field_simps)
  also have "\<dots> = 2 * 2 powi (52 - e)"
    by (simp add: power_int_diff)
  finally have "rat_of_int B < rat_of_int (2 * K)" by (simp add: Kp)
  then have BK: "B < 2 * K" by (simp only: of_int_less_iff)
  have keep: "\<lfloor>r0\<rfloor> = \<lfloor>p\<rfloor> \<and> \<lceil>r0\<rceil> = \<lceil>p\<rceil>"
    unfolding r0_def p_def by (rule scaled_round_keeps_floor_ceiling [OF AB(1,2) K BK])
  have "p \<le> rat_of_int A"
    using AB by (simp add: p_def field_simps)
  then have "\<lceil>p\<rceil> \<le> A" by (simp add: ceiling_le_iff)
  with keep AB(3) have "\<lceil>r0\<rceil> < 2 ^ 53" by linarith
  then have "rat_of_int \<lceil>r0\<rceil> < rat_of_int (2 ^ 53)" by (simp only: of_int_less_iff)
  with le_of_int_ceiling [of r0] have "r0 < rat_of_int (2 ^ 53)" by (rule order_le_less_trans)
  also have "rat_of_int (2 ^ 53) = 2 powi 53" by simp
  also have "(2::rat) powi 53 \<le> 2 powi 1024" by (rule power_int_increasing) simp_all
  finally have fits: "\<not> 2 powi 1024 \<le> r0" by (simp only: not_le)
  have scaled: "p / (1 / rat_of_int K) = p * rat_of_int K" by simp
  have unscale: "rat_of_int m * (1 / rat_of_int K) = rat_of_int m / rat_of_int K" for m by simp
  have val: "true_div a b = Some (sgn q * r0)"
    unfolding true_div_def Let_def
    by (simp only: assms(1) if_False q_def [symmetric] A_def [symmetric] B_def [symmetric]
        p [symmetric] e0_def [symmetric] e_def [symmetric] clamp ulp scaled unscale
        r0_def [symmetric] fits)
  have "q \<noteq> 0" using assms by (simp add: q_def)
  then consider "0 < q" | "q < 0" by linarith
  then have "\<lceil>sgn q * r0\<rceil> = \<lceil>q\<rceil>"
  proof cases
    case 1
    with p keep show ?thesis by simp
  next
    case 2
    with p have "q = - p" by simp
    with 2 keep show ?thesis by (simp add: ceiling_minus)
  qed
  with val show ?thesis by (simp add: q_def)
qed

lemma ceil_div_Inr:
  assumes "ceil_div tot per_page = Inr n"
  obtains a b q where "as_int tot = Some a" "as_int per_page = Some b" "b \<noteq> 0"
    "true_div a b = Some q" "n = \<lceil>q\<rceil>"
  using assms by (auto simp: ceil_div_def split: option.splits if_splits)

lemma true_div_ceiling:
  assumes "true_div a b = Some q" and "b \<noteq> 0" and "\<bar>a\<bar> < 2 ^ 53" and "\<bar>b\<bar> < 2 ^ 53"
  shows "\<lceil>q\<rceil> = \<lceil>rat_of_int a / rat_of_int b\<rceil>"
proof (cases "a = 0")
  case True
  with assms(1) show ?thesis by (simp add: true_div_def)
next
  case False
  from true_div_exact [OF False assms(2-4)] assms(1) show ?thesis by auto
qed

text \<open>A quotient of \<open>2 ^ 1024\<close> is too large for a double, and a zero divisor is refused.\<close>

lemma ceil_div_overflow: "ceil_div (JInt (2 ^ 1024)) (JInt 1) = Inl OverflowError"
proof -
  have "bitlen (2 ^ 1024 + 0) = 1025"
    by (subst bitlen_twopow_add_eq) simp_all
  then have b: "bitlen (2 ^ 1024) = 1025" by simp
  have "bitlen 1 = 1" by (simp add: compute_bitlen)
  with b have "true_div (2 ^ 1024) 1 = None"
    by (simp add: true_div_def Let_def round_half_even_def)
  then show ?thesis by (simp add: ceil_div_def)
qed

lemma ceil_div_zero: "ceil_div (JInt 250) (JInt 0) = Inl ZeroDivisionError"
  by (simp add: ceil_div_def)

lemma ceil_div_250_100: "ceil_div (JInt 250) (JInt 100) = Inr 3"
proof -
  from true_div_exact [of 250 100] obtain r where
    r: "true_div 250 100 = Some r" "\<lceil>r\<rceil> = \<lceil>rat_of_int 250 / rat_of_int 100\<rceil>"
    by auto
  have "\<lceil>rat_of_int 250 / rat_of_int 100\<rceil> = (3::int)"
    by (simp add: ceiling_unique)
  with r show ?thesis by (simp add: ceil_div_def)
qed

subsection \<open>Page numbers\<close>

lemma decimal_digits: "decimal (digits n) = n"
proof (induction n rule: digits.induct)
  case (1 n)
  show ?case
  proof (cases "n < 10")
    case True
    then show ?thesis by (simp add: digits.simps [of n] decimal_def)
  next
    case False
    with 1 have "decimal (digits (n div 10)) = n div 10" by simp
    with False show ?thesis
      by (simp add: digits.simps [of n] decimal_def)
  qed
qed

lemma digits_inj: "digits m = digits n \<Longrightarrow> m = n"
  by (metis decimal_digits)

lemma digits_range: "d \<in> set (digits n) \<Longrightarrow> 48 \<le> d \<and> d \<le> 57"
proof (induction n rule: digits.induct)
  case (1 n)
  show ?case
  proof (cases "n < 10")
    case True
    with "1.prems" show ?thesis by (simp add: digits.simps [of n])
  next
    case False
    with 1 show ?thesis
      by (auto simp: digits.simps [of n])
  qed
qed

lemma digits_no_leading_zero: "0 < n \<Longrightarrow> digits n \<noteq> [] \<and> hd (digits n) \<noteq> 48"
proof (induction n rule: digits.induct)
  case (1 n)
  show ?case
  proof (cases "n < 10")
    case True
    with "1.prems" show ?thesis by (simp add: digits.simps [of n])
  next
    case False
    then have "0 < n div 10" by simp
    with 1 False have "digits (n div 10) \<noteq> [] \<and> hd (digits (n div 10)) \<noteq> 48" by simp
    with False show ?thesis
      by (simp add: digits.simps [of n])
  qed
qed

lemma format_int_examples:
  "format_int 7 = ascii ''7''" "format_int 250 = ascii ''250''" "format_int (- 12) = ascii ''-12''"
  by (simp_all add: format_int_def digits.simps ascii_def)

lemma format_int_pos: "0 \<le> page \<Longrightarrow> format_int page = digits (nat page)"
  by (simp add: format_int_def)

lemma page_url_inj:
  assumes "page_url url i = page_url url j" and "0 \<le> i" and "0 \<le> j"
  shows "i = j"
proof -
  from assms have "digits (nat i) = digits (nat j)"
    by (simp add: page_url_def format_int_pos)
  then have "nat i = nat j" by (rule digits_inj)
  with assms(2,3) show ?thesis by simp
qed

lemma distinct_page_urls: "distinct (map (page_url url) [1..n])"
proof -
  have "inj_on (page_url url) (set [1..n])"
    by (rule inj_onI) (auto intro: page_url_inj)
  then show ?thesis by (simp add: distinct_map)
qed

lemma page_urls_spelled:
  "map (page_url url) [1..n] = map (\<lambda>page. url @ ascii ''&page='' @ digits (nat page)) [1..n]"
  by (rule map_cong) (simp_all add: page_url_def format_int_pos)

lemma not_found_is_recognised: "sublist not_found_phrase (not_found_message inn)"
  by (simp add: not_found_message_def)

subsection \<open>What a call leaves of the world\<close>

lemma get_supplier_name_try_world:
  "snd (get_supplier_name_try w inn) = w\<lparr>requests := requests w @ [supplier_url inn]\<rparr>"
  by (simp add: get_supplier_name_try_def requests_get_def)

lemma get_supplier_name_requests:
  "get_supplier_name w inn = (name, w1) \<Longrightarrow> requests w1 = requests w @ [supplier_url inn]"
  using get_supplier_name_try_world [of w inn]
  by (auto simp: get_supplier_name_def split: prod.splits sum.splits)

lemma fetch_page_world:
  "snd (fetch_page w url page) = w\<lparr>requests := requests w @ [page_url url page]\<rparr>"
  by (simp add: fetch_page_def requests_get_def)

section \<open>The supplier lookup\<close>

text \<open>
  The first name of the first supplier record is returned, and the placeholder when the
  record has no \<open>allNames\<close> field.
\<close>

lemma get_supplier_name_first:
  assumes "remote w (requests w) (supplier_url inn) = ok (supplier_response (JObj kvs))"
    and "map_of kvs (ascii ''allNames'') = Some (JArr (name # names))"
  shows "fst (get_supplier_name w inn) = name"
  using assms
  by (simp add: get_supplier_name_def get_supplier_name_try_def requests_get_def ok_def
      supplier_response_def response_json_def split: sum.splits)

lemma get_supplier_name_placeholder:
  assumes "remote w (requests w) (supplier_url inn) = ok (supplier_response (JObj kvs))"
    and "map_of kvs (ascii ''allNames'') = None"
  shows "fst (get_supplier_name w inn) = JStr placeholder_name"
  using assms
  by (simp add: get_supplier_name_def get_supplier_name_try_def requests_get_def ok_def
      supplier_response_def response_json_def)

text \<open>
  C6. When the registry answers the lookup with status 404, \<open>get_supplier_name\<close> returns
  the not-found message, which is the phrase, a space and the identifier as given, and
  \<open>get_contracts_by_inn\<close> returns that message at once: the lookup is the only request
  made.
\<close>

theorem unknown_inn_not_found:
  assumes "remote w (requests w) (supplier_url inn) = Inr r" and "status_code r = 404"
  shows "get_supplier_name w inn =
           (JStr (not_found_phrase @ [32] @ inn), w\<lparr>requests := requests w @ [supplier_url inn]\<rparr>)
       \<and> get_contracts_by_inn w inn =
           (Inr (Plain (JStr (not_found_phrase @ [32] @ inn))),
            w\<lparr>requests := requests w @ [supplier_url inn]\<rparr>)"
proof -
  have name: "get_supplier_name w inn =
      (JStr (not_found_message inn), w\<lparr>requests := requests w @ [supplier_url inn]\<rparr>)"
    using assms by (simp add: get_supplier_name_def get_supplier_name_try_def requests_get_def)
  have "get_contracts_by_inn w inn =
      (Inr (Plain (JStr (not_found_message inn))), w\<lparr>requests := requests w @ [supplier_url inn]\<rparr>)"
    by (simp add: get_contracts_by_inn_def name not_found_is_recognised)
  with name show ?thesis
    by (simp add: not_found_message_def)
qed

theorem unknown_inn_not_found_witness:
  "get_supplier_name registry_404 sample_inn =
     (JStr (not_found_phrase @ [32] @ sample_inn),
      registry_404\<lparr>requests := [supplier_url sample_inn]\<rparr>)
   \<and> get_contracts_by_inn registry_404 sample_inn =
     (Inr (Plain (JStr (not_found_phrase @ [32] @ sample_inn))),
      registry_404\<lparr>requests := [supplier_url sample_inn]\<rparr>)"
  using unknown_inn_not_found [of registry_404 sample_inn "\<lparr>status_code = 404, body = None\<rparr>"]
  by (simp add: registry_404_def)

text \<open>
  C9. When the lookup is answered with a status other than 404 and the name it yields is
  a str that contains the not-found phrase, \<open>get_contracts_by_inn\<close> returns that name as
  a plain value, and the lookup is the only request made.
\<close>

theorem name_with_phrase_taken_as_not_found:
  assumes "remote w (requests w) (supplier_url inn) = Inr r" and "status_code r \<noteq> 404"
    and "get_supplier_name w inn = (JStr name, w1)"
    and "sublist not_found_phrase name"
  shows "get_contracts_by_inn w inn = (Inr (Plain (JStr name)), w1)
       \<and> requests w1 = requests w @ [supplier_url inn]"
  using assms(3,4) get_supplier_name_requests [OF assms(3)]
  by (simp add: get_contracts_by_inn_def)

lemma odd_name_lookup:
  "get_supplier_name registry_odd_name sample_inn =
     (JStr odd_name, registry_odd_name\<lparr>requests := [supplier_url sample_inn]\<rparr>)"
  by (simp add: get_supplier_name_def get_supplier_name_try_def requests_get_def ok_def
      supplier_response_def response_json_def registry_odd_name_def)

theorem name_with_phrase_taken_as_not_found_witness:
  "get_contracts_by_inn registry_odd_name sample_inn =
     (Inr (Plain (JStr (ascii ''OOO '' @ not_found_phrase))),
      registry_odd_name\<lparr>requests := [supplier_url sample_inn]\<rparr>)"
proof -
  have r: "remote registry_odd_name (requests registry_odd_name) (supplier_url sample_inn) =
      Inr \<lparr>status_code = 200,
           body = Some (supplier_response (JObj [(ascii ''allNames'', JArr [JStr odd_name])]))\<rparr>"
    by (simp add: registry_odd_name_def ok_def)
  have s: "sublist not_found_phrase odd_name"
    by (simp add: odd_name_def)
  from name_with_phrase_taken_as_not_found [OF r _ odd_name_lookup s]
  show ?thesis by (simp add: odd_name_def)
qed

text \<open>
  C7, at a response whose supplier record has an empty list of names: the lookup gives
  \<open>None\<close>, the exception is printed, and the caller reports the generic failure.
\<close>

theorem empty_names_is_failure:
  "get_supplier_name registry_no_names sample_inn =
     (JNull, registry_no_names\<lparr>requests := [supplier_url sample_inn], stdout := [IndexError]\<rparr>)
   \<and> fst (get_contracts_by_inn registry_no_names sample_inn) =
       Inr (Plain (JStr something_went_wrong))"
proof -
  have "get_supplier_name registry_no_names sample_inn =
     (JNull, registry_no_names\<lparr>requests := [supplier_url sample_inn], stdout := [IndexError]\<rparr>)"
    by (simp add: get_supplier_name_def get_supplier_name_try_def requests_get_def ok_def
        supplier_response_def response_json_def registry_no_names_def)
  then show ?thesis by (simp add: get_contracts_by_inn_def)
qed

section \<open>Faults\<close>

lemma contracts_down_lookup:
  "get_supplier_name contracts_down sample_inn =
     (JStr (ascii ''RZD''), contracts_down\<lparr>requests := [supplier_url sample_inn]\<rparr>)"
  by (simp add: get_supplier_name_def get_supplier_name_try_def requests_get_def ok_def
      supplier_response_def response_json_def contracts_down_def)

lemma RZD_is_a_name: "\<not> sublist not_found_phrase (ascii ''RZD'')"
  by (simp add: sublist_Cons_right not_found_phrase_def ascii_def)

text \<open>
  C1 as stated fails: with the lookup answered and the contracts request refused, the
  exception leaves \<open>get_contracts_by_inn\<close>.
\<close>

theorem fetch_fault_escapes:
  "fst (get_contracts_by_inn contracts_down sample_inn) = Inl ConnectionError"
  by (simp add: get_contracts_by_inn_def contracts_down_lookup RZD_is_a_name requests_get_def)
    (simp add: contracts_down_def)

text \<open>
  C1, amended. Whatever exception the lookup raises is printed and turned into the
  generic failure, with no further request. An exception raised by the first contracts
  request, made once the lookup has given a name, is the result of
  \<open>get_contracts_by_inn\<close>.
\<close>

theorem lookup_fault_caught_fetch_fault_not:
  "(get_supplier_name_try w inn = (Inl e, w1) \<longrightarrow>
      get_contracts_by_inn w inn =
        (Inr (Plain (JStr something_went_wrong)), w1\<lparr>stdout := stdout w1 @ [e]\<rparr>))
   \<and> (get_supplier_name w inn = (JStr name, w1) \<and> \<not> sublist not_found_phrase name
        \<and> remote w1 (requests w1) (contracts_url inn) = Inl e \<longrightarrow>
      get_contracts_by_inn w inn =
        (Inl e, w1\<lparr>requests := requests w1 @ [contracts_url inn]\<rparr>))"
  by (simp add: get_contracts_by_inn_def get_supplier_name_def requests_get_def)

theorem lookup_fault_caught_fetch_fault_not_witness:
  "get_contracts_by_inn registry_down sample_inn =
     (Inr (Plain (JStr something_went_wrong)),
      registry_down\<lparr>requests := [supplier_url sample_inn], stdout := [Timeout]\<rparr>)
   \<and> get_contracts_by_inn contracts_down sample_inn =
     (Inl ConnectionError,
      contracts_down\<lparr>requests := [supplier_url sample_inn, contracts_url sample_inn]\<rparr>)"
proof -
  have a: "get_supplier_name_try registry_down sample_inn =
      (Inl Timeout, registry_down\<lparr>requests := [supplier_url sample_inn]\<rparr>)"
    by (simp add: get_supplier_name_try_def requests_get_def registry_down_def)
  have b: "remote (contracts_down\<lparr>requests := [supplier_url sample_inn]\<rparr>)
             (requests (contracts_down\<lparr>requests := [supplier_url sample_inn]\<rparr>))
             (contracts_url sample_inn) = Inl ConnectionError"
    by (simp add: contracts_down_def)
  have c: "stdout registry_down = []"
    by (simp add: registry_down_def)
  from lookup_fault_caught_fetch_fault_not
         [of registry_down sample_inn Timeout "registry_down\<lparr>requests := [supplier_url sample_inn]\<rparr>"]
       lookup_fault_caught_fetch_fault_not
         [of contracts_down sample_inn ConnectionError
             "contracts_down\<lparr>requests := [supplier_url sample_inn]\<rparr>" "ascii ''RZD''"]
       a b c contracts_down_lookup RZD_is_a_name
  show ?thesis by simp
qed

section \<open>The filter\<close>

subsection \<open>The two loops\<close>

lemma products_loop_none:
  "list_all (\<lambda>p. relevant r1 r2 p = Inr False) ps \<Longrightarrow> products_loop r1 r2 c n ps mc = Inr mc"
  by (induction ps) simp_all

lemma products_loop_first:
  assumes "list_all (\<lambda>q. relevant r1 r2 q = Inr False) pre" and "relevant r1 r2 p = Inr True"
  shows "products_loop r1 r2 c n (pre @ p # post) mc =
           bind (summarise c p n) (\<lambda>s. Inr (mc @ [s]))"
  using assms by (induction pre) simp_all








subsection \<open>The sample contracts\<close>

lemma relevant_samples:
  "relevant okpd_smi okpd2_smi newspapers = Inr True"
  "relevant okpd_smi okpd2_smi broadcast = Inr True"
  "relevant okpd_smi okpd2_smi bare_journal = Inr True"
  "relevant okpd_smi okpd2_smi coal = Inr False"
  "relevant okpd_smi okpd2_smi uncoded = Inr False"
  by (simp_all add: relevant_def okpd_smi_def okpd2_smi_def newspapers_def broadcast_def
      bare_journal_def coal_def uncoded_def)

lemma summarise_samples:
  "summarise contract_a newspapers (Suc (Suc 0)) = Inr summary_a"
  "summarise contract_c bare_journal (Suc (Suc 0)) = Inr summary_c"
  "summarise contract_d newspapers (Suc (Suc (Suc 0))) = Inr summary_d"
  by (simp_all add: summarise_def contract_a_def contract_c_def contract_d_def newspapers_def
      bare_journal_def summary_a_def summary_c_def summary_d_def)

lemma products_samples:
  "bind (getitem contract_a (ascii ''products'')) iter = Inr [newspapers, broadcast]"
  "bind (getitem contract_b (ascii ''products'')) iter = Inr [coal]"
  "bind (getitem contract_c (ascii ''products'')) iter = Inr [uncoded, bare_journal]"
  "bind (getitem contract_d (ascii ''products'')) iter = Inr [coal, newspapers, JNull]"
  by (simp_all add: contract_a_def contract_b_def contract_c_def contract_d_def)

lemma media_summary_samples:
  "media_summary okpd_smi okpd2_smi contract_a = [summary_a]"
  "media_summary okpd_smi okpd2_smi contract_b = []"
  "media_summary okpd_smi okpd2_smi contract_c = [summary_c]"
  "media_summary okpd_smi okpd2_smi contract_d = [summary_d]"
  by (simp_all add: media_summary_def products_samples first_relevant_def relevant_samples
      summarise_samples)

lemma contracts_loop_Cons':
  "contracts_loop r1 r2 (c # rest) mc =
     bind (bind (getitem c (ascii ''products'')) iter) (\<lambda>ps.
     bind (products_loop r1 r2 c (length ps) ps mc) (\<lambda>mc'. contracts_loop r1 r2 rest mc'))"
  by (cases "getitem c (ascii ''products'')") simp_all

lemma filter_samples:
  assumes "files w = sample_files"
  shows "filter_media_contracts w (JArr [contract_a, contract_b]) = Inr [summary_a]"
    and "filter_media_contracts w (JArr [contract_c]) = Inr [summary_c]"
    and "filter_media_contracts w (JArr [contract_d]) = Inr [summary_d]"
    and "filter_media_contracts w (JArr [contract_a, contract_b, contract_d]) =
           Inr [summary_a, summary_d]"
    and "filter_media_contracts w (JArr [contract_a, contract_b, contract_c]) =
           Inr [summary_a, summary_c]"
  using assms
  by (simp_all add: filter_media_contracts_def load_json_def sample_files_def
      contracts_loop_Cons' products_samples relevant_samples summarise_samples
      del: contracts_loop.simps(2))

subsection \<open>One summary for a contract, from its first relevant product\<close>

lemma summarise_fields:
  assumes "summarise c p n = Inr s"
  shows "\<exists>regnum.
           get p (ascii ''name'') (JStr (ascii ''-'')) = Inr (PRODUCT_DESCRIPTION s)
         \<and> get p (ascii ''sum'') (JStr (ascii ''-'')) = Inr (PRODUCT_PRICE s)
         \<and> get c (ascii ''price'') (JStr (ascii ''-'')) = Inr (CONTRACT_PRICE s)
         \<and> getitem c (ascii ''regNum'') = Inr (JStr regnum)
         \<and> CONTRACT_URL s = ascii ''https://clearspending.ru/contract/'' @ regnum
         \<and> NUM_PRODUCTS s = n"
proof -
  from assms obtain contract_price product_price product_description regnum contract_url where
    g: "get c (ascii ''price'') (JStr (ascii ''-'')) = Inr contract_price"
       "get p (ascii ''sum'') (JStr (ascii ''-'')) = Inr product_price"
       "get p (ascii ''name'') (JStr (ascii ''-'')) = Inr product_description"
       "getitem c (ascii ''regNum'') = Inr regnum"
    and u: "str_add clearspending_base regnum = Inr contract_url"
    and s: "s = \<lparr>CONTRACT_URL = contract_url, CONTRACT_PRICE = contract_price,
                  PRODUCT_DESCRIPTION = product_description, PRODUCT_PRICE = product_price,
                  NUM_PRODUCTS = n\<rparr>"
    by (auto simp: summarise_def bind_Inr_iff)
  from u obtain text' where "regnum = JStr text'" "contract_url = clearspending_base @ text'"
    by (cases regnum) auto
  with g s show ?thesis by (simp add: clearspending_base_def)
qed

lemma products_loop_cases:
  assumes "products_loop r1 r2 c n ps mc = Inr out"
  shows "(list_all (\<lambda>q. relevant r1 r2 q = Inr False) ps \<and> out = mc)
       \<or> (\<exists>pre p post s. ps = pre @ p # post
             \<and> list_all (\<lambda>q. relevant r1 r2 q = Inr False) pre
             \<and> relevant r1 r2 p = Inr True
             \<and> summarise c p n = Inr s \<and> out = mc @ [s])"
  using assms
proof (induction ps)
  case Nil
  then show ?case by simp
next
  case (Cons x xs)
  from Cons.prems obtain hit where hit: "relevant r1 r2 x = Inr hit"
    by (auto simp: bind_Inr_iff)
  show ?case
  proof (cases hit)
    case True
    with Cons.prems hit obtain s where "summarise c x n = Inr s" "out = mc @ [s]"
      by (auto simp: bind_Inr_iff)
    with hit True have "x # xs = [] @ x # xs
        \<and> list_all (\<lambda>q. relevant r1 r2 q = Inr False) []
        \<and> relevant r1 r2 x = Inr True \<and> summarise c x n = Inr s \<and> out = mc @ [s]"
      by simp
    then show ?thesis by blast
  next
    case False
    with Cons.prems hit have "products_loop r1 r2 c n xs mc = Inr out" by simp
    from Cons.IH [OF this] show ?thesis
    proof
      assume "list_all (\<lambda>q. relevant r1 r2 q = Inr False) xs \<and> out = mc"
      with hit False show ?thesis by simp
    next
      assume "\<exists>pre p post s. xs = pre @ p # post
             \<and> list_all (\<lambda>q. relevant r1 r2 q = Inr False) pre
             \<and> relevant r1 r2 p = Inr True
             \<and> summarise c p n = Inr s \<and> out = mc @ [s]"
      then obtain pre p post s where "xs = pre @ p # post"
        "list_all (\<lambda>q. relevant r1 r2 q = Inr False) pre"
        "relevant r1 r2 p = Inr True" "summarise c p n = Inr s" "out = mc @ [s]"
        by blast
      with hit False have "x # xs = (x # pre) @ p # post
          \<and> list_all (\<lambda>q. relevant r1 r2 q = Inr False) (x # pre)
          \<and> relevant r1 r2 p = Inr True \<and> summarise c p n = Inr s \<and> out = mc @ [s]"
        by simp
      then show ?thesis by blast
    qed
  qed
qed

lemma products_loop_contributes:
  assumes "bind (getitem c (ascii ''products'')) iter = Inr ps"
    and "products_loop r1 r2 c (length ps) ps mc = Inr out"
  shows "\<exists>ss. out = mc @ ss \<and> contributes r1 r2 c ss"
  using products_loop_cases [OF assms(2)]
proof
  assume "list_all (\<lambda>q. relevant r1 r2 q = Inr False) ps \<and> out = mc"
  with assms(1) have "out = mc @ [] \<and> contributes r1 r2 c []"
    by (auto simp: contributes_def)
  then show ?thesis by blast
next
  assume "\<exists>pre p post s. ps = pre @ p # post
       \<and> list_all (\<lambda>q. relevant r1 r2 q = Inr False) pre
       \<and> relevant r1 r2 p = Inr True
       \<and> summarise c p (length ps) = Inr s \<and> out = mc @ [s]"
  then obtain pre p post s where d: "ps = pre @ p # post"
    "list_all (\<lambda>q. relevant r1 r2 q = Inr False) pre" "relevant r1 r2 p = Inr True"
    and s: "summarise c p (length ps) = Inr s" and out: "out = mc @ [s]"
    by blast
  from summarise_fields [OF s] obtain regnum where
    "get p (ascii ''name'') (JStr (ascii ''-'')) = Inr (PRODUCT_DESCRIPTION s)"
    "get p (ascii ''sum'') (JStr (ascii ''-'')) = Inr (PRODUCT_PRICE s)"
    "get c (ascii ''price'') (JStr (ascii ''-'')) = Inr (CONTRACT_PRICE s)"
    "getitem c (ascii ''regNum'') = Inr (JStr regnum)"
    "CONTRACT_URL s = ascii ''https://clearspending.ru/contract/'' @ regnum"
    "NUM_PRODUCTS s = length ps"
    by blast
  with assms(1) d have "contributes r1 r2 c [s]"
    unfolding contributes_def by blast
  with out show ?thesis by blast
qed

lemma contracts_loop_contributes:
  "contracts_loop r1 r2 cs mc = Inr out \<Longrightarrow>
     \<exists>outs. out = mc @ concat outs \<and> list_all2 (contributes r1 r2) cs outs"
proof (induction cs arbitrary: mc)
  case Nil
  then show ?case by simp
next
  case (Cons c cs)
  from Cons.prems obtain ps mc' where
    p: "bind (getitem c (ascii ''products'')) iter = Inr ps"
    and l: "products_loop r1 r2 c (length ps) ps mc = Inr mc'"
    and r: "contracts_loop r1 r2 cs mc' = Inr out"
    by (auto simp: bind_Inr_iff)
  from products_loop_contributes [OF p l] obtain ss where
    ss: "mc' = mc @ ss" "contributes r1 r2 c ss" by blast
  from Cons.IH [OF r] obtain outs where
    outs: "out = mc' @ concat outs" "list_all2 (contributes r1 r2) cs outs" by blast
  from ss outs have "out = mc @ concat (ss # outs) \<and> list_all2 (contributes r1 r2) (c # cs) (ss # outs)"
    by simp
  then show ?case by blast
qed

lemma products_loop_stop:
  assumes "list_all (\<lambda>q. relevant r1 r2 q = Inr False) pre" and "relevant r1 r2 p = Inr True"
  shows "products_loop r1 r2 c n (pre @ p # post) mc = products_loop r1 r2 c n (pre @ p # post') mc"
  by (simp only: products_loop_first [OF assms])

text \<open>
  C3. When the filter returns, its output is the concatenation, in the order of the page,
  of one list for each contract. That list is empty when no product of the contract is
  relevant. Otherwise it is a single summary, and with \<open>p\<close> the first relevant product of
  the contract (every product before it is not relevant), the product description and the
  product price of the summary are the \<open>name\<close> and the \<open>sum\<close> of \<open>p\<close> (or \<open>'-'\<close>), the
  contract price and the URL are those of the contract, and the count is the length of the
  product list. The inner loop stops at \<open>p\<close>: what follows \<open>p\<close> in the list has no effect
  on its result.
\<close>

theorem one_summary_from_first_relevant_product:
  assumes "filter_media_contracts w contracts = Inr out"
  shows "\<exists>okpd_ref okpd2_ref cs outs.
           load_json w (ascii ''okpd_smi.json'') = Inr okpd_ref
         \<and> load_json w (ascii ''okpd2_smi.json'') = Inr okpd2_ref
         \<and> iter contracts = Inr cs
         \<and> out = concat outs
         \<and> list_all2
             (\<lambda>c ss. \<exists>ps. bind (getitem c (ascii ''products'')) iter = Inr ps
                \<and> (list_all (\<lambda>q. relevant okpd_ref okpd2_ref q = Inr False) ps \<and> ss = []
                   \<or> (\<exists>pre p post s regnum.
                         ps = pre @ p # post
                       \<and> list_all (\<lambda>q. relevant okpd_ref okpd2_ref q = Inr False) pre
                       \<and> relevant okpd_ref okpd2_ref p = Inr True
                       \<and> ss = [s]
                       \<and> get p (ascii ''name'') (JStr (ascii ''-'')) = Inr (PRODUCT_DESCRIPTION s)
                       \<and> get p (ascii ''sum'') (JStr (ascii ''-'')) = Inr (PRODUCT_PRICE s)
                       \<and> get c (ascii ''price'') (JStr (ascii ''-'')) = Inr (CONTRACT_PRICE s)
                       \<and> getitem c (ascii ''regNum'') = Inr (JStr regnum)
                       \<and> CONTRACT_URL s = ascii ''https://clearspending.ru/contract/'' @ regnum
                       \<and> NUM_PRODUCTS s = length ps)))
             cs outs
         \<and> (\<forall>c n pre p post post' mc.
               list_all (\<lambda>q. relevant okpd_ref okpd2_ref q = Inr False) pre
               \<and> relevant okpd_ref okpd2_ref p = Inr True \<longrightarrow>
               products_loop okpd_ref okpd2_ref c n (pre @ p # post) mc =
                 products_loop okpd_ref okpd2_ref c n (pre @ p # post') mc)"
proof -
  from assms obtain r1 r2 cs where
    l: "load_json w (ascii ''okpd_smi.json'') = Inr r1"
       "load_json w (ascii ''okpd2_smi.json'') = Inr r2" "iter contracts = Inr cs"
    and c: "contracts_loop r1 r2 cs [] = Inr out"
    by (auto simp: filter_media_contracts_def bind_Inr_iff)
  from contracts_loop_contributes [OF c] obtain outs where
    outs: "out = concat outs" "list_all2 (contributes r1 r2) cs outs"
    by auto
  have stop: "\<forall>c n pre p post post' mc.
      list_all (\<lambda>q. relevant r1 r2 q = Inr False) pre \<and> relevant r1 r2 p = Inr True \<longrightarrow>
      products_loop r1 r2 c n (pre @ p # post) mc = products_loop r1 r2 c n (pre @ p # post') mc"
    using products_loop_stop [of r1 r2] by blast
  from l outs stop show ?thesis
    unfolding contributes_def [abs_def] by blast
qed

lemma first_of_contract_a:
  assumes "[newspapers, broadcast] = pre @ p # post"
    and "list_all (\<lambda>q. relevant okpd_smi okpd2_smi q = Inr False) pre"
  shows "p = newspapers"
proof (cases pre)
  case Nil
  with assms(1) show ?thesis by simp
next
  case (Cons x xs)
  with assms(1) have "x = newspapers" by simp
  with Cons assms(2) show ?thesis by (simp add: relevant_samples)
qed

theorem one_summary_from_first_relevant_product_witness:
  "filter_media_contracts media_world (JArr [contract_a, contract_b, contract_d]) =
     Inr [summary_a, summary_d]
   \<and> (\<exists>ss outs. [summary_a, summary_d] = concat (ss # outs) \<and> length outs = 2
        \<and> (\<exists>s. ss = [s] \<and> PRODUCT_DESCRIPTION s = JStr (ascii ''newspapers'')
              \<and> PRODUCT_PRICE s = JInt 600))
   \<and> products_loop okpd_smi okpd2_smi contract_d 3 ([coal] @ newspapers # [JNull]) [] =
       products_loop okpd_smi okpd2_smi contract_d 3 ([coal] @ newspapers # []) []"
proof -
  have f: "files media_world = sample_files"
    by (simp add: media_world_def)
  have h: "filter_media_contracts media_world (JArr [contract_a, contract_b, contract_d]) =
      Inr [summary_a, summary_d]"
    by (rule filter_samples(4) [OF f])
  from one_summary_from_first_relevant_product [OF h]
  have "\<exists>r1 r2 cs outs.
      load_json media_world (ascii ''okpd_smi.json'') = Inr r1
    \<and> load_json media_world (ascii ''okpd2_smi.json'') = Inr r2
    \<and> iter (JArr [contract_a, contract_b, contract_d]) = Inr cs
    \<and> [summary_a, summary_d] = concat outs
    \<and> list_all2 (contributes r1 r2) cs outs
    \<and> (\<forall>c n pre p post post' mc.
          list_all (\<lambda>q. relevant r1 r2 q = Inr False) pre \<and> relevant r1 r2 p = Inr True \<longrightarrow>
          products_loop r1 r2 c n (pre @ p # post) mc = products_loop r1 r2 c n (pre @ p # post') mc)"
    unfolding contributes_def [abs_def] .
  then obtain r1 r2 cs outs where
    l: "load_json media_world (ascii ''okpd_smi.json'') = Inr r1"
       "load_json media_world (ascii ''okpd2_smi.json'') = Inr r2"
       "iter (JArr [contract_a, contract_b, contract_d]) = Inr cs"
    and out: "[summary_a, summary_d] = concat outs"
    and each: "list_all2 (contributes r1 r2) cs outs"
    and stop: "\<forall>c n pre p post post' mc.
      list_all (\<lambda>q. relevant r1 r2 q = Inr False) pre \<and> relevant r1 r2 p = Inr True \<longrightarrow>
      products_loop r1 r2 c n (pre @ p # post) mc = products_loop r1 r2 c n (pre @ p # post') mc"
    by blast
  from l have r: "r1 = okpd_smi" "r2 = okpd2_smi" "cs = [contract_a, contract_b, contract_d]"
    by (simp_all add: load_json_def f sample_files_def)
  from each r obtain ss rest where outs: "outs = ss # rest" "length rest = 2"
    and a: "contributes okpd_smi okpd2_smi contract_a ss"
    by (auto simp: list_all2_Cons1)
  from a obtain s where s: "ss = [s]"
    "get newspapers (ascii ''name'') (JStr (ascii ''-'')) = Inr (PRODUCT_DESCRIPTION s)"
    "get newspapers (ascii ''sum'') (JStr (ascii ''-'')) = Inr (PRODUCT_PRICE s)"
    unfolding contributes_def
    by (auto simp: products_samples relevant_samples dest: first_of_contract_a)
  then have "PRODUCT_DESCRIPTION s = JStr (ascii ''newspapers'')" "PRODUCT_PRICE s = JInt 600"
    by (simp_all add: newspapers_def)
  with s(1) out outs have first: "\<exists>ss outs. [summary_a, summary_d] = concat (ss # outs)
      \<and> length outs = 2
      \<and> (\<exists>s. ss = [s] \<and> PRODUCT_DESCRIPTION s = JStr (ascii ''newspapers'')
            \<and> PRODUCT_PRICE s = JInt 600)"
    by blast
  have "list_all (\<lambda>q. relevant okpd_smi okpd2_smi q = Inr False) [coal]
      \<and> relevant okpd_smi okpd2_smi newspapers = Inr True"
    by (simp add: relevant_samples)
  with stop r have "products_loop okpd_smi okpd2_smi contract_d 3 ([coal] @ newspapers # [JNull]) [] =
      products_loop okpd_smi okpd2_smi contract_d 3 ([coal] @ newspapers # []) []"
    by blast
  with h first show ?thesis by (intro conjI)
qed

subsection \<open>Missing fields\<close>

lemma broken_samples:
  "bind (getitem contract_without_products (ascii ''products'')) iter = Inl KeyError"
  "bind (getitem contract_without_regnum (ascii ''products'')) iter = Inr [newspapers]"
  "summarise contract_without_regnum newspapers (Suc 0) = Inl KeyError"
  by (simp_all add: contract_without_products_def contract_without_regnum_def summarise_def
      newspapers_def)

text \<open>
  C2 as stated fails: a contract without \<open>products\<close>, and a contract with a relevant
  product but without \<open>regNum\<close>, each make the whole filter raise \<open>KeyError\<close>, also when
  an earlier contract of the page was relevant.
\<close>

theorem missing_products_or_regnum_fails:
  "filter_media_contracts media_world (JArr [contract_a, contract_without_products]) = Inl KeyError
   \<and> filter_media_contracts media_world (JArr [contract_without_regnum]) = Inl KeyError"
  by (simp add: filter_media_contracts_def load_json_def media_world_def sample_files_def
      contracts_loop_Cons' products_samples relevant_samples summarise_samples broken_samples
      del: contracts_loop.simps(2))

subsection \<open>Products without a code\<close>

text \<open>
  C5 as stated fails: with a \<open>null\<close> among the OKPD codes, a product that has no code
  field at all is relevant.
\<close>

theorem uncoded_product_matches_null:
  "relevant (JArr [JStr (ascii ''22.12.1''), JNull]) okpd2_smi uncoded = Inr True"
  by (simp add: relevant_def uncoded_def)

lemma null_not_contained: "null_free ref \<Longrightarrow> contains ref JNull = Inr False"
  by (cases ref) (simp_all add: list_ex_iff)

lemma no_code_gives_None:
  assumes "no_code kvs k"
  shows "bind (get (JObj kvs) k (JObj [])) (\<lambda>o1. get o1 (ascii ''code'') JNull) = Inr JNull"
  using assms by (auto simp: no_code_def split: option.splits json.splits)

lemma no_codes_not_relevant:
  assumes "no_code kvs (ascii ''OKPD'')" and "no_code kvs (ascii ''OKPD2'')"
    and "null_free okpd_ref" and "null_free okpd2_ref"
  shows "relevant okpd_ref okpd2_ref (JObj kvs) = Inr False"
proof -
  from no_code_gives_None [OF assms(1)] obtain o1 where
    o1: "get (JObj kvs) (ascii ''OKPD'') (JObj []) = Inr o1" "get o1 (ascii ''code'') JNull = Inr JNull"
    by (auto simp: bind_Inr_iff)
  from no_code_gives_None [OF assms(2)] obtain o2 where
    o2: "get (JObj kvs) (ascii ''OKPD2'') (JObj []) = Inr o2" "get o2 (ascii ''code'') JNull = Inr JNull"
    by (auto simp: bind_Inr_iff)
  show ?thesis
    unfolding relevant_def
    by (simp only: o1 o2 bind.simps null_not_contained [OF assms(3)]
        null_not_contained [OF assms(4)] if_False)
qed

text \<open>
  C5, amended. A product that carries no code under \<open>OKPD\<close> and none under \<open>OKPD2\<close> is
  not relevant, for all reference sets (lists or dicts) that have no \<open>null\<close> entry.
\<close>

theorem uncoded_product_not_relevant:
  assumes "no_code kvs (ascii ''OKPD'')" and "no_code kvs (ascii ''OKPD2'')"
    and "null_free okpd_ref" and "null_free okpd2_ref"
  shows "relevant okpd_ref okpd2_ref (JObj kvs) = Inr False"
  using assms by (rule no_codes_not_relevant)

theorem uncoded_product_not_relevant_witness:
  "relevant okpd_smi okpd2_smi uncoded = Inr False
   \<and> relevant okpd_smi (JObj [(ascii ''58.13.1'', JNull)])
       (JObj [(ascii ''OKPD'', JObj [(ascii ''name'', JStr (ascii ''paper''))])]) = Inr False"
  using uncoded_product_not_relevant [of "[(ascii ''name'', JStr (ascii ''sundries''))]" okpd_smi okpd2_smi]
    uncoded_product_not_relevant [of "[(ascii ''OKPD'', JObj [(ascii ''name'', JStr (ascii ''paper''))])]"
      okpd_smi "JObj [(ascii ''58.13.1'', JNull)]"]
  by (simp add: no_code_def okpd_smi_def okpd2_smi_def uncoded_def)

subsection \<open>Pages that are filtered without an exception\<close>

lemma askable_contains: "askable ref v \<Longrightarrow> \<exists>b. contains ref v = Inr b"
  by (cases ref; cases v) auto

lemma set_contains_null: "is_set ref \<Longrightarrow> \<exists>b. contains ref JNull = Inr b"
  by (cases ref) auto

lemma code_ok_lookup:
  assumes "is_set ref" and "code_ok ref kvs k"
  shows "\<exists>v b. bind (get (JObj kvs) k (JObj [])) (\<lambda>o1. get o1 (ascii ''code'') JNull) = Inr v
           \<and> contains ref v = Inr b"
proof (cases "map_of kvs k")
  case None
  with set_contains_null [OF assms(1)] show ?thesis by simp
next
  case (Some field)
  with assms(2) obtain o1 where o1: "field = JObj o1"
    by (cases field) (simp_all add: code_ok_def)
  show ?thesis
  proof (cases "map_of o1 (ascii ''code'')")
    case None
    with Some o1 set_contains_null [OF assms(1)] show ?thesis by simp
  next
    case (Some v)
    with \<open>map_of kvs k = Some field\<close> o1 assms(2) have "askable ref v"
      by (simp add: code_ok_def)
    from askable_contains [OF this] Some \<open>map_of kvs k = Some field\<close> o1 show ?thesis by simp
  qed
qed

lemma relevant_total:
  assumes "is_set r1" and "is_set r2" and "product_shaped r1 r2 p"
  shows "\<exists>b. relevant r1 r2 p = Inr b"
proof -
  from assms(3) obtain kvs where p: "p = JObj kvs"
    and c: "code_ok r1 kvs (ascii ''OKPD'')" "code_ok r2 kvs (ascii ''OKPD2'')"
    by (cases p) simp_all
  from code_ok_lookup [OF assms(1) c(1)] obtain o1 okpd b1 where
    1: "get (JObj kvs) (ascii ''OKPD'') (JObj []) = Inr o1"
       "get o1 (ascii ''code'') JNull = Inr okpd" "contains r1 okpd = Inr b1"
    by (auto simp: bind_Inr_iff)
  from code_ok_lookup [OF assms(2) c(2)] obtain o2 okpd2 b2 where
    2: "get (JObj kvs) (ascii ''OKPD2'') (JObj []) = Inr o2"
       "get o2 (ascii ''code'') JNull = Inr okpd2" "contains r2 okpd2 = Inr b2"
    by (auto simp: bind_Inr_iff)
  show ?thesis
    unfolding relevant_def p by (simp only: 1 2 bind.simps) auto
qed

lemma summarise_dicts:
  assumes "map_of ckvs (ascii ''regNum'') = Some (JStr r)"
  shows "summarise (JObj ckvs) (JObj pkvs) n =
           Inr \<lparr>CONTRACT_URL = ascii ''https://clearspending.ru/contract/'' @ r,
                CONTRACT_PRICE = or_dash ckvs (ascii ''price''),
                PRODUCT_DESCRIPTION = or_dash pkvs (ascii ''name''),
                PRODUCT_PRICE = or_dash pkvs (ascii ''sum''),
                NUM_PRODUCTS = n\<rparr>"
  using assms
  by (simp add: summarise_def or_dash_def clearspending_base_def split: option.splits)

lemma products_loop_shaped:
  assumes "is_set r1" and "is_set r2" and "list_all (product_shaped r1 r2) ps"
    and "list_ex (\<lambda>p. relevant r1 r2 p = Inr True) ps \<longrightarrow>
           (case map_of ckvs (ascii ''regNum'') of Some (JStr r) \<Rightarrow> True | _ \<Rightarrow> False)"
  shows "products_loop r1 r2 (JObj ckvs) n ps mc =
           Inr (mc @ (case find (\<lambda>p. relevant r1 r2 p = Inr True) ps of
                        Some (JObj pkvs) \<Rightarrow>
                          (case map_of ckvs (ascii ''regNum'') of
                             Some (JStr regnum) \<Rightarrow>
                               [\<lparr>CONTRACT_URL = ascii ''https://clearspending.ru/contract/'' @ regnum,
                                 CONTRACT_PRICE = or_dash ckvs (ascii ''price''),
                                 PRODUCT_DESCRIPTION = or_dash pkvs (ascii ''name''),
                                 PRODUCT_PRICE = or_dash pkvs (ascii ''sum''),
                                 NUM_PRODUCTS = n\<rparr>]
                           | _ \<Rightarrow> [])
                      | _ \<Rightarrow> []))"
  using assms(3,4)
proof (induction ps)
  case Nil
  then show ?case by simp
next
  case (Cons p ps)
  then have shaped: "product_shaped r1 r2 p" and rest: "list_all (product_shaped r1 r2) ps"
    by simp_all
  from relevant_total [OF assms(1,2) shaped] obtain b where b: "relevant r1 r2 p = Inr b"
    by blast
  from shaped obtain pkvs where p: "p = JObj pkvs" by (cases p) simp_all
  show ?case
  proof (cases b)
    case True
    with b Cons.prems(2) obtain r where r: "map_of ckvs (ascii ''regNum'') = Some (JStr r)"
      by (auto split: option.splits json.splits)
    from b True show ?thesis
      by (simp add: p r summarise_dicts [OF r])
  next
    case False
    with b Cons.prems(2) have "list_ex (\<lambda>p. relevant r1 r2 p = Inr True) ps \<longrightarrow>
        (case map_of ckvs (ascii ''regNum'') of Some (JStr r) \<Rightarrow> True | _ \<Rightarrow> False)"
      by simp
    from Cons.IH [OF rest this] b False show ?thesis by simp
  qed
qed

lemma contracts_loop_shaped:
  assumes "is_set r1" and "is_set r2"
  shows "list_all (contract_shaped r1 r2) cs \<Longrightarrow>
     contracts_loop r1 r2 cs mc = Inr (mc @ concat (map (dashed_summary r1 r2) cs))"
proof (induction cs arbitrary: mc)
  case Nil
  then show ?case by simp
next
  case (Cons c cs)
  then have shaped: "contract_shaped r1 r2 c" and rest: "list_all (contract_shaped r1 r2) cs"
    by simp_all
  from shaped obtain ckvs ps where c: "c = JObj ckvs"
    and ps: "map_of ckvs (ascii ''products'') = Some (JArr ps)"
      "list_all (product_shaped r1 r2) ps"
      "list_ex (\<lambda>p. relevant r1 r2 p = Inr True) ps \<longrightarrow>
         (case map_of ckvs (ascii ''regNum'') of Some (JStr r) \<Rightarrow> True | _ \<Rightarrow> False)"
    by (cases c) (auto split: option.splits json.splits)
  have "products_loop r1 r2 (JObj ckvs) (length ps) ps mc = Inr (mc @ dashed_summary r1 r2 c)"
    unfolding products_loop_shaped [OF assms ps(2,3)]
    by (simp add: dashed_summary_def c ps(1))
  with Cons.IH [OF rest] show ?case by (simp add: c ps(1))
qed

lemma no_codes_shaped:
  assumes "no_code kvs (ascii ''OKPD'')" and "no_code kvs (ascii ''OKPD2'')"
  shows "product_shaped r1 r2 (JObj kvs)"
  using assms by (auto simp: no_code_def code_ok_def split: option.splits json.splits)

text \<open>
  C2, amended. With both reference sets loaded as lists or dicts, a page of contracts
  that each have a list of products, and a str registry number where a product is
  relevant, is filtered without an exception, whether or not the contract price, the
  product price, the product description, the \<open>OKPD\<close> and \<open>OKPD2\<close> fields and their \<open>code\<close>
  are there. The output is, contract by contract, the summary of the first relevant
  product, in which each of the contract price, the product description and the product
  price that is missing is the placeholder \<open>'-'\<close>. A product with no code under either
  scheme is within these pages, and is not relevant when neither reference set holds
  \<open>null\<close>.
\<close>

theorem optional_fields_never_fail:
  assumes "load_json w (ascii ''okpd_smi.json'') = Inr okpd_ref"
    and "load_json w (ascii ''okpd2_smi.json'') = Inr okpd2_ref"
    and "is_set okpd_ref" and "is_set okpd2_ref"
    and "list_all (contract_shaped okpd_ref okpd2_ref) cs"
  shows "filter_media_contracts w (JArr cs) =
           Inr (concat (map (dashed_summary okpd_ref okpd2_ref) cs))
       \<and> (\<forall>kvs. no_code kvs (ascii ''OKPD'') \<and> no_code kvs (ascii ''OKPD2'') \<longrightarrow>
            product_shaped okpd_ref okpd2_ref (JObj kvs)
            \<and> (null_free okpd_ref \<and> null_free okpd2_ref \<longrightarrow>
                 relevant okpd_ref okpd2_ref (JObj kvs) = Inr False))"
proof -
  have "filter_media_contracts w (JArr cs) =
      Inr (concat (map (dashed_summary okpd_ref okpd2_ref) cs))"
    using assms(1,2) contracts_loop_shaped [OF assms(3,4,5), of "[]"]
    by (simp add: filter_media_contracts_def)
  moreover have "\<forall>kvs. no_code kvs (ascii ''OKPD'') \<and> no_code kvs (ascii ''OKPD2'') \<longrightarrow>
      product_shaped okpd_ref okpd2_ref (JObj kvs)
      \<and> (null_free okpd_ref \<and> null_free okpd2_ref \<longrightarrow>
           relevant okpd_ref okpd2_ref (JObj kvs) = Inr False)"
    using no_codes_shaped no_codes_not_relevant by blast
  ultimately show ?thesis by (rule conjI)
qed

lemma dashed_samples:
  "dashed_summary okpd_smi okpd2_smi contract_a = [summary_a]"
  "dashed_summary okpd_smi okpd2_smi contract_b = []"
  "dashed_summary okpd_smi okpd2_smi contract_c = [summary_c]"
proof -
  show "dashed_summary okpd_smi okpd2_smi contract_a = [summary_a]"
    by (simp add: dashed_summary_def contract_a_def relevant_samples)
      (simp add: newspapers_def summary_a_def or_dash_def clearspending_base_def)
  show "dashed_summary okpd_smi okpd2_smi contract_b = []"
    by (simp add: dashed_summary_def contract_b_def relevant_samples)
  show "dashed_summary okpd_smi okpd2_smi contract_c = [summary_c]"
    by (simp add: dashed_summary_def contract_c_def relevant_samples)
      (simp add: bare_journal_def summary_c_def or_dash_def clearspending_base_def)
qed

theorem optional_fields_never_fail_witness:
  "filter_media_contracts media_world (JArr [contract_a, contract_b, contract_c]) =
     Inr [summary_a, summary_c]
   \<and> CONTRACT_PRICE summary_c = JStr (ascii ''-'')
   \<and> PRODUCT_DESCRIPTION summary_c = JStr (ascii ''-'')
   \<and> PRODUCT_PRICE summary_c = JStr (ascii ''-'')
   \<and> product_shaped okpd_smi okpd2_smi uncoded
   \<and> relevant okpd_smi okpd2_smi uncoded = Inr False"
proof -
  have f: "files media_world = sample_files"
    by (simp add: media_world_def)
  have l: "load_json media_world (ascii ''okpd_smi.json'') = Inr okpd_smi"
    "load_json media_world (ascii ''okpd2_smi.json'') = Inr okpd2_smi"
    by (simp_all add: load_json_def f sample_files_def)
  have s: "is_set okpd_smi" "is_set okpd2_smi" "null_free okpd_smi" "null_free okpd2_smi"
    by (simp_all add: okpd_smi_def okpd2_smi_def)
  have products: "list_all (product_shaped okpd_smi okpd2_smi)
      [newspapers, broadcast, coal, uncoded, bare_journal]"
    by (simp add: newspapers_def broadcast_def coal_def uncoded_def bare_journal_def
        code_ok_def okpd_smi_def okpd2_smi_def)
  then have c: "list_all (contract_shaped okpd_smi okpd2_smi) [contract_a, contract_b, contract_c]"
    by (simp add: contract_a_def contract_b_def contract_c_def)
  have n: "no_code [(ascii ''name'', JStr (ascii ''sundries''))] (ascii ''OKPD'')
      \<and> no_code [(ascii ''name'', JStr (ascii ''sundries''))] (ascii ''OKPD2'')"
    by (simp add: no_code_def)
  from optional_fields_never_fail [OF l s(1,2) c] n s(3,4)
  have "filter_media_contracts media_world (JArr [contract_a, contract_b, contract_c]) =
      Inr [summary_a, summary_c]"
    and "product_shaped okpd_smi okpd2_smi uncoded"
    and "relevant okpd_smi okpd2_smi uncoded = Inr False"
    by (simp_all add: dashed_samples uncoded_def)
  then show ?thesis by (simp add: summary_c_def)
qed

subsection \<open>The same page filtered twice\<close>

text \<open>
  C8. The output of the filter is determined by the page and by what the two reference
  files hold: two calls on the same page, in worlds that agree on these two files and may
  differ in everything else, give the same result.
\<close>

theorem same_page_same_output:
  assumes "load_json w1 (ascii ''okpd_smi.json'') = load_json w2 (ascii ''okpd_smi.json'')"
    and "load_json w1 (ascii ''okpd2_smi.json'') = load_json w2 (ascii ''okpd2_smi.json'')"
  shows "filter_media_contracts w1 contracts = filter_media_contracts w2 contracts"
  using assms by (simp add: filter_media_contracts_def)

theorem same_page_same_output_witness:
  "filter_media_contracts media_world (JArr [contract_a, contract_b]) =
     filter_media_contracts later_world (JArr [contract_a, contract_b])
   \<and> filter_media_contracts later_world (JArr [contract_a, contract_b]) = Inr [summary_a]
   \<and> media_world \<noteq> later_world"
proof -
  have f: "files later_world = sample_files"
    by (simp add: later_world_def)
  have "requests media_world \<noteq> requests later_world"
    by (simp add: media_world_def later_world_def)
  then have "media_world \<noteq> later_world" by auto
  with same_page_same_output [of media_world later_world "JArr [contract_a, contract_b]"]
    filter_samples(1) [OF f]
  show ?thesis by (simp add: load_json_def media_world_def later_world_def)
qed

section \<open>The pages\<close>

lemma fetch_page_eq:
  "fetch_page w url page =
     (fst (fetch_page w url page), w\<lparr>requests := requests w @ [page_url url page]\<rparr>)"
  using fetch_page_world [of w url page] by (simp add: prod_eq_iff)

lemma pages_loop_Inr:
  assumes "pages_loop w url ps acc = (Inr out, w')"
  shows "\<exists>founds. length founds = length ps
           \<and> out = acc @ concat founds
           \<and> w' = w\<lparr>requests := requests w @ map (page_url url) ps\<rparr>
           \<and> (\<forall>i<length ps.
                 fst (fetch_page (w\<lparr>requests := requests w @ map (page_url url) (take i ps)\<rparr>)
                        url (ps ! i)) = Inr (founds ! i))"
  using assms
proof (induction ps arbitrary: w acc)
  case Nil
  then show ?case by simp
next
  case (Cons p ps)
  let ?w1 = "w\<lparr>requests := requests w @ [page_url url p]\<rparr>"
  obtain r where r: "fetch_page w url p = (r, ?w1)"
    using fetch_page_eq [of w url p] by blast
  from Cons.prems r obtain found where found: "r = Inr found"
    and rest: "pages_loop ?w1 url ps (acc @ found) = (Inr out, w')"
    by (cases r) simp_all
  from Cons.IH [OF rest] obtain founds where
    f: "length founds = length ps" "out = (acc @ found) @ concat founds"
       "w' = ?w1\<lparr>requests := requests ?w1 @ map (page_url url) ps\<rparr>"
    and each: "\<forall>i<length ps.
        fst (fetch_page (?w1\<lparr>requests := requests ?w1 @ map (page_url url) (take i ps)\<rparr>)
               url (ps ! i)) = Inr (founds ! i)"
    by blast
  have "\<forall>i<length (p # ps).
      fst (fetch_page (w\<lparr>requests := requests w @ map (page_url url) (take i (p # ps))\<rparr>)
             url ((p # ps) ! i)) = Inr ((found # founds) ! i)"
  proof (intro allI impI)
    fix i
    assume i: "i < length (p # ps)"
    show "fst (fetch_page (w\<lparr>requests := requests w @ map (page_url url) (take i (p # ps))\<rparr>)
             url ((p # ps) ! i)) = Inr ((found # founds) ! i)"
    proof (cases i)
      case 0
      with r found show ?thesis by simp
    next
      case (Suc k)
      with i each show ?thesis by simp
    qed
  qed
  with f show ?case
    by (intro exI [of _ "found # founds"]) simp
qed


lemma get_supplier_name_world:
  assumes "get_supplier_name w inn = (name, w1)" and "name \<noteq> JNull"
  shows "w1 = w\<lparr>requests := requests w @ [supplier_url inn]\<rparr>"
  using assms get_supplier_name_try_world [of w inn]
  by (auto simp: get_supplier_name_def split: prod.splits sum.splits)

text \<open>What a call that returns the triple has done.\<close>

lemma get_contracts_by_inn_Triple:
  assumes "get_contracts_by_inn w inn = (Inr (Triple name tot out), w')"
  obtains w1 w2 r j data per_page n where
    "get_supplier_name w inn = (name, w1)"
    "w1 = w\<lparr>requests := requests w @ [supplier_url inn]\<rparr>"
    "remote w1 (requests w1) (contracts_url inn) = Inr r"
    "response_json r = Inr j"
    "getitem j (ascii ''contracts'') = Inr data"
    "getitem data (ascii ''total'') = Inr tot"
    "getitem data (ascii ''perpage'') = Inr per_page"
    "ceil_div tot per_page = Inr n"
    "w2 = w1\<lparr>requests := requests w1 @ [contracts_url inn]\<rparr>"
    "pages_loop w2 (contracts_url inn) [1..n] [] = (Inr out, w')"
proof -
  obtain name' w1 where g: "get_supplier_name w inn = (name', w1)"
    by (cases "get_supplier_name w inn")
  from assms g have nn: "name' \<noteq> JNull"
    by (auto simp: get_contracts_by_inn_def)
  from assms g nn have c: "contains name' (JStr not_found_phrase) = Inr False"
    by (auto simp: get_contracts_by_inn_def split: sum.splits bool.splits)
  let ?w2 = "w1\<lparr>requests := requests w1 @ [contracts_url inn]\<rparr>"
  let ?first = "bind (remote w1 (requests w1) (contracts_url inn)) (\<lambda>response.
      bind (response_json response) (\<lambda>j.
      bind (getitem j (ascii ''contracts'')) (\<lambda>data.
      bind (getitem data (ascii ''total'')) (\<lambda>total'.
      bind (getitem data (ascii ''perpage'')) (\<lambda>per_page.
      bind (ceil_div total' per_page) (\<lambda>num_pages. Inr (total', num_pages)))))))"
  from assms g nn c have run:
    "(case ?first of
        Inl e \<Rightarrow> (Inl e, ?w2)
      | Inr (total', num_pages) \<Rightarrow>
          (case pages_loop ?w2 (contracts_url inn) [1..num_pages] [] of
             (Inl e, w3) \<Rightarrow> (Inl e, w3)
           | (Inr all_media_contracts, w3) \<Rightarrow>
               (Inr (Triple name' total' all_media_contracts), w3)))
     = (Inr (Triple name tot out), w')"
    by (simp add: get_contracts_by_inn_def requests_get_def)
  then obtain tot' n where first: "?first = Inr (tot', n)"
    by (cases ?first) auto
  from run first have pages: "pages_loop ?w2 (contracts_url inn) [1..n] [] = (Inr out, w')"
    and eq: "name' = name" "tot' = tot"
    by (auto split: prod.splits sum.splits)
  from first eq obtain r j data per_page where
    "remote w1 (requests w1) (contracts_url inn) = Inr r"
    "response_json r = Inr j"
    "getitem j (ascii ''contracts'') = Inr data"
    "getitem data (ascii ''total'') = Inr tot"
    "getitem data (ascii ''perpage'') = Inr per_page"
    "ceil_div tot per_page = Inr n"
    by (auto simp: bind_Inr_iff)
  with that [of w1 _ _ _ _ n ?w2] g eq nn pages get_supplier_name_world [OF g nn]
  show ?thesis by blast
qed

text \<open>
  C4, amended. When \<open>get_contracts_by_inn\<close> returns the triple, the total and the page
  size were read from the answer to the first contracts request, made right after the
  lookup; the number of pages is the ceiling of their double quotient, which is the
  ceiling of the exact quotient when both are below \<open>2 ^ 53\<close> in absolute value; and the
  requests of the whole call are the lookup, that first request, and then one request for
  each page from 1 to that number, in this order, the URL of a page being the contracts
  URL followed by \<open>&page=\<close> and the page number, so that no two pages share a URL.
\<close>

theorem one_request_per_page:
  assumes "get_contracts_by_inn w inn = (Inr (Triple name tot out), w')"
  shows "\<exists>w1 r j data per_page a b q.
           get_supplier_name w inn = (name, w1)
         \<and> remote w1 (requests w1)
              (ascii ''http://openapi.clearspending.ru/restapi/v3/contracts/select/?supplierinn=''
                 @ inn @ ascii ''&sort=-signDate'') = Inr r
         \<and> response_json r = Inr j
         \<and> getitem j (ascii ''contracts'') = Inr data
         \<and> getitem data (ascii ''total'') = Inr tot
         \<and> getitem data (ascii ''perpage'') = Inr per_page
         \<and> as_int tot = Some a \<and> as_int per_page = Some b \<and> b \<noteq> 0
         \<and> true_div a b = Some q
         \<and> (\<bar>a\<bar> < 2 ^ 53 \<and> \<bar>b\<bar> < 2 ^ 53 \<longrightarrow> \<lceil>q\<rceil> = \<lceil>rat_of_int a / rat_of_int b\<rceil>)
         \<and> requests w' =
             requests w
               @ [ascii ''http://openapi.clearspending.ru/restapi/v3/suppliers/get/?inn='' @ inn,
                  ascii ''http://openapi.clearspending.ru/restapi/v3/contracts/select/?supplierinn=''
                    @ inn @ ascii ''&sort=-signDate'']
               @ map (\<lambda>page.
                        ascii ''http://openapi.clearspending.ru/restapi/v3/contracts/select/?supplierinn=''
                          @ inn @ ascii ''&sort=-signDate'' @ ascii ''&page='' @ digits (nat page))
                   [1..\<lceil>q\<rceil>]
         \<and> distinct
             (map (\<lambda>page.
                     ascii ''http://openapi.clearspending.ru/restapi/v3/contracts/select/?supplierinn=''
                       @ inn @ ascii ''&sort=-signDate'' @ ascii ''&page='' @ digits (nat page))
                [1..\<lceil>q\<rceil>])"
proof -
  let ?u = "ascii ''http://openapi.clearspending.ru/restapi/v3/contracts/select/?supplierinn=''
     @ inn @ ascii ''&sort=-signDate''"
  have u: "contracts_url inn = ?u" by (simp add: contracts_url_def)
  from assms obtain w1 w2 r j data per_page n where
    run: "get_supplier_name w inn = (name, w1)"
      "remote w1 (requests w1) (contracts_url inn) = Inr r"
      "response_json r = Inr j"
      "getitem j (ascii ''contracts'') = Inr data"
      "getitem data (ascii ''total'') = Inr tot"
      "getitem data (ascii ''perpage'') = Inr per_page"
    and n: "ceil_div tot per_page = Inr n"
    and w: "w1 = w\<lparr>requests := requests w @ [supplier_url inn]\<rparr>"
      "w2 = w1\<lparr>requests := requests w1 @ [contracts_url inn]\<rparr>"
    and pages: "pages_loop w2 (contracts_url inn) [1..n] [] = (Inr out, w')"
    by (rule get_contracts_by_inn_Triple)
  from n obtain a b q where ab: "as_int tot = Some a" "as_int per_page = Some b" "b \<noteq> 0"
    and q: "true_div a b = Some q" "n = \<lceil>q\<rceil>"
    by (rule ceil_div_Inr)
  have exact: "\<bar>a\<bar> < 2 ^ 53 \<and> \<bar>b\<bar> < 2 ^ 53 \<longrightarrow> \<lceil>q\<rceil> = \<lceil>rat_of_int a / rat_of_int b\<rceil>"
    using true_div_ceiling [OF q(1) ab(3)] by blast
  from pages_loop_Inr [OF pages] have
    "w' = w2\<lparr>requests := requests w2 @ map (page_url (contracts_url inn)) [1..n]\<rparr>"
    by blast
  with w have "requests w' =
      requests w @ [supplier_url inn, contracts_url inn] @ map (page_url (contracts_url inn)) [1..n]"
    by simp
  then have log: "requests w' =
      requests w
        @ [ascii ''http://openapi.clearspending.ru/restapi/v3/suppliers/get/?inn='' @ inn, ?u]
        @ map (\<lambda>page. ?u @ ascii ''&page='' @ digits (nat page)) [1..\<lceil>q\<rceil>]"
    by (simp only: page_urls_spelled q(2)) (simp add: supplier_url_def contracts_url_def)
  have "distinct (map (page_url (contracts_url inn)) [1..n])"
    by (rule distinct_page_urls)
  then have dist: "distinct (map (\<lambda>page. ?u @ ascii ''&page='' @ digits (nat page)) [1..\<lceil>q\<rceil>])"
    by (simp only: page_urls_spelled q(2)) (simp add: contracts_url_def)
  from run(2) have first: "remote w1 (requests w1) ?u = Inr r"
    by (simp add: contracts_url_def)
  from log have log': "requests w' =
      requests w
        @ [ascii ''http://openapi.clearspending.ru/restapi/v3/suppliers/get/?inn='' @ inn, ?u]
        @ map (\<lambda>page. ?u @ ascii ''&sort=-signDate'' @ ascii ''&page='' @ digits (nat page)) []
        @ map (\<lambda>page. ?u @ ascii ''&page='' @ digits (nat page)) [1..\<lceil>q\<rceil>]"
    by simp
  from run(1) first run(3-6) ab q(1) exact log dist show ?thesis
    by (simp only: append_assoc) blast
qed

subsection \<open>A supplier with 250 contracts, 100 to a page\<close>

lemma upto_1_3: "[1..3] = [1, 2, 3::int]"
  by (simp add: upto.simps)

lemma media_lookup:
  "get_supplier_name media_world sample_inn =
     (JStr (ascii ''RZD''), media_world\<lparr>requests := [supplier_url sample_inn]\<rparr>)"
  by (simp add: get_supplier_name_def get_supplier_name_try_def requests_get_def ok_def
      supplier_response_def response_json_def media_world_def media_remote_def)

lemma media_page:
  assumes "files w = sample_files" and "remote w = media_remote"
  shows "length (requests w) = 2 \<Longrightarrow> fst (fetch_page w url page) = Inr [summary_a]"
    and "length (requests w) = 3 \<Longrightarrow> fst (fetch_page w url page) = Inr [summary_c]"
    and "length (requests w) = 4 \<Longrightarrow> fst (fetch_page w url page) = Inr [summary_d]"
  using assms
  by (simp_all add: fetch_page_def requests_get_def media_remote_def ok_def
      contracts_response_def response_json_def filter_samples)

lemma media_pages:
  "pages_loop (media_world\<lparr>requests := [supplier_url sample_inn, contracts_url sample_inn]\<rparr>)
     (contracts_url sample_inn) [1, 2, 3] [] =
   (Inr [summary_a, summary_c, summary_d],
    media_world\<lparr>requests :=
      [supplier_url sample_inn, contracts_url sample_inn,
       page_url (contracts_url sample_inn) 1, page_url (contracts_url sample_inn) 2,
       page_url (contracts_url sample_inn) 3]\<rparr>)"
proof -
  have w: "files media_world = sample_files" "remote media_world = media_remote"
    by (simp_all add: media_world_def)
  let ?u = "contracts_url sample_inn"
  let ?w2 = "media_world\<lparr>requests := [supplier_url sample_inn, ?u]\<rparr>"
  let ?w3 = "media_world\<lparr>requests := [supplier_url sample_inn, ?u, page_url ?u 1]\<rparr>"
  let ?w4 = "media_world\<lparr>requests := [supplier_url sample_inn, ?u, page_url ?u 1, page_url ?u 2]\<rparr>"
  let ?w5 = "media_world\<lparr>requests :=
      [supplier_url sample_inn, ?u, page_url ?u 1, page_url ?u 2, page_url ?u 3]\<rparr>"
  have 1: "fetch_page ?w2 ?u 1 = (Inr [summary_a], ?w3)"
    using fetch_page_eq [of ?w2 ?u 1] media_page(1) [of ?w2 ?u 1] w by simp
  have 2: "fetch_page ?w3 ?u 2 = (Inr [summary_c], ?w4)"
    using fetch_page_eq [of ?w3 ?u 2] media_page(2) [of ?w3 ?u 2] w by simp
  have 3: "fetch_page ?w4 ?u 3 = (Inr [summary_d], ?w5)"
    using fetch_page_eq [of ?w4 ?u 3] media_page(3) [of ?w4 ?u 3] w by simp
  show ?thesis by (simp add: 1 2 3)
qed

lemma media_first_request:
  "remote (media_world\<lparr>requests := [supplier_url sample_inn]\<rparr>)
     (requests (media_world\<lparr>requests := [supplier_url sample_inn]\<rparr>)) (contracts_url sample_inn) =
   ok (contracts_response 250 100 [contract_a, contract_b])"
  by (simp add: media_world_def media_remote_def)

lemma media_run:
  "get_contracts_by_inn media_world sample_inn =
     (Inr (Triple (JStr (ascii ''RZD'')) (JInt 250) [summary_a, summary_c, summary_d]),
      media_world\<lparr>requests :=
        [supplier_url sample_inn, contracts_url sample_inn,
         page_url (contracts_url sample_inn) 1, page_url (contracts_url sample_inn) 2,
         page_url (contracts_url sample_inn) 3]\<rparr>)"
  using media_first_request
  by (simp add: get_contracts_by_inn_def media_lookup RZD_is_a_name requests_get_def ok_def
      contracts_response_def response_json_def ceil_div_250_100 upto_1_3 media_pages
      del: pages_loop.simps)

lemma sample_urls:
  "supplier_url sample_inn =
     ascii ''http://openapi.clearspending.ru/restapi/v3/suppliers/get/?inn=7826159654''"
  "contracts_url sample_inn =
     ascii ''http://openapi.clearspending.ru/restapi/v3/contracts/select/?supplierinn=7826159654&sort=-signDate''"
  by (simp_all add: supplier_url_def contracts_url_def sample_inn_def ascii_def)

lemma digits_123: "digits (Suc 0) = [49]" "digits 2 = [50]" "digits 3 = [51]"
  by (simp_all add: digits.simps)

theorem one_request_per_page_witness:
  "fst (get_contracts_by_inn media_world sample_inn) =
     Inr (Triple (JStr (ascii ''RZD'')) (JInt 250) [summary_a, summary_c, summary_d])
   \<and> requests (snd (get_contracts_by_inn media_world sample_inn)) =
      [ascii ''http://openapi.clearspending.ru/restapi/v3/suppliers/get/?inn=7826159654'',
       ascii ''http://openapi.clearspending.ru/restapi/v3/contracts/select/?supplierinn=7826159654&sort=-signDate'',
       ascii ''http://openapi.clearspending.ru/restapi/v3/contracts/select/?supplierinn=7826159654&sort=-signDate&page=1'',
       ascii ''http://openapi.clearspending.ru/restapi/v3/contracts/select/?supplierinn=7826159654&sort=-signDate&page=2'',
       ascii ''http://openapi.clearspending.ru/restapi/v3/contracts/select/?supplierinn=7826159654&sort=-signDate&page=3'']
   \<and> \<lceil>rat_of_int 250 / rat_of_int 100\<rceil> = 3"
proof -
  let ?u = "ascii ''http://openapi.clearspending.ru/restapi/v3/contracts/select/?supplierinn=''
     @ sample_inn @ ascii ''&sort=-signDate''"
  let ?w' = "snd (get_contracts_by_inn media_world sample_inn)"
  have u: "contracts_url sample_inn = ?u" by (simp add: contracts_url_def)
  have run: "get_contracts_by_inn media_world sample_inn =
      (Inr (Triple (JStr (ascii ''RZD'')) (JInt 250) [summary_a, summary_c, summary_d]), ?w')"
    by (simp add: media_run)
  define S where
    "S = ascii ''http://openapi.clearspending.ru/restapi/v3/suppliers/get/?inn='' @ sample_inn"
  define U where "U = ?u"
  define P where "P = (\<lambda>page.
    ascii ''http://openapi.clearspending.ru/restapi/v3/contracts/select/?supplierinn=''
      @ sample_inn @ ascii ''&sort=-signDate'' @ ascii ''&page='' @ digits (nat page))"
  from one_request_per_page [OF run, folded S_def U_def P_def]
  obtain w1 r j data per_page a b q where
    look: "get_supplier_name media_world sample_inn = (JStr (ascii ''RZD''), w1)"
    and first: "remote w1 (requests w1) U = Inr r"
      "response_json r = Inr j"
      "getitem j (ascii ''contracts'') = Inr data"
      "getitem data (ascii ''perpage'') = Inr per_page"
    and ab: "as_int (JInt 250) = Some a" "as_int per_page = Some b"
    and tq: "true_div a b = Some q"
    and exact: "\<bar>a\<bar> < 2 ^ 53 \<and> \<bar>b\<bar> < 2 ^ 53 \<longrightarrow> \<lceil>q\<rceil> = \<lceil>rat_of_int a / rat_of_int b\<rceil>"
    and log: "requests ?w' = requests media_world @ [S, U] @ map P [1..\<lceil>q\<rceil>]"
    by blast
  from look media_lookup have "w1 = media_world\<lparr>requests := [supplier_url sample_inn]\<rparr>"
    by simp
  with first(1) media_first_request
  have "r = \<lparr>status_code = 200, body = Some (contracts_response 250 100 [contract_a, contract_b])\<rparr>"
    by (simp add: ok_def u [symmetric] U_def)
  with first(2) have "j = contracts_response 250 100 [contract_a, contract_b]"
    by (simp add: response_json_def)
  with first(3,4) have "per_page = JInt 100"
    by (auto simp: contracts_response_def)
  with ab have a: "a = 250" and b: "b = 100" by simp_all
  have three: "\<lceil>rat_of_int 250 / rat_of_int 100\<rceil> = (3::int)"
    by (simp add: ceiling_unique)
  from exact a b three have q: "\<lceil>q\<rceil> = 3" by simp
  have e: "requests media_world = []" by (simp add: media_world_def)
  from log have "requests ?w' =
      [ascii ''http://openapi.clearspending.ru/restapi/v3/suppliers/get/?inn=7826159654'',
       ascii ''http://openapi.clearspending.ru/restapi/v3/contracts/select/?supplierinn=7826159654&sort=-signDate'',
       ascii ''http://openapi.clearspending.ru/restapi/v3/contracts/select/?supplierinn=7826159654&sort=-signDate&page=1'',
       ascii ''http://openapi.clearspending.ru/restapi/v3/contracts/select/?supplierinn=7826159654&sort=-signDate&page=2'',
       ascii ''http://openapi.clearspending.ru/restapi/v3/contracts/select/?supplierinn=7826159654&sort=-signDate&page=3'']"
    by (simp add: q e upto_1_3 digits_123 sample_inn_def ascii_def S_def U_def P_def)
  moreover have "fst (get_contracts_by_inn media_world sample_inn) =
      Inr (Triple (JStr (ascii ''RZD'')) (JInt 250) [summary_a, summary_c, summary_d])"
    by (simp add: media_run)
  ultimately show ?thesis using three by (intro conjI)
qed

subsection \<open>A page count that is not the exact ceiling\<close>

lemma bitlen_huge: "bitlen 9007199254740993 = 54" "bitlen 9007199254740992 = 54"
  by (simp_all add: compute_bitlen)

lemma floor_huge: "\<lfloor>(9007199254740993::rat) / 2\<rfloor> = 4503599627370496"
  using floor_divide_of_int_eq [where ?'a = rat, of 9007199254740993 2] by simp

lemma true_div_huge: "true_div 9007199254740993 9007199254740992 = Some 1"
  by (simp add: true_div_def Let_def bitlen_huge round_half_even_def floor_huge)

lemma huge_lookup:
  "get_supplier_name huge_world sample_inn =
     (JStr (ascii ''RZD''), huge_world\<lparr>requests := [supplier_url sample_inn]\<rparr>)"
  by (simp add: get_supplier_name_def get_supplier_name_try_def requests_get_def ok_def
      supplier_response_def response_json_def huge_world_def huge_remote_def)

lemma huge_page:
  "fetch_page (huge_world\<lparr>requests := [supplier_url sample_inn, contracts_url sample_inn]\<rparr>)
     (contracts_url sample_inn) 1 =
   (Inr [], huge_world\<lparr>requests :=
      [supplier_url sample_inn, contracts_url sample_inn, page_url (contracts_url sample_inn) 1]\<rparr>)"
  by (simp add: fetch_page_def requests_get_def huge_world_def huge_remote_def ok_def
      contracts_response_def response_json_def filter_media_contracts_def load_json_def
      sample_files_def)

text \<open>
  C4 as stated fails: with a total of \<open>2 ^ 53 + 1\<close> and \<open>2 ^ 53\<close> to a page the double
  quotient is 1, and page 1 is the only page requested, where the ceiling of the quotient
  is 2.
\<close>

theorem page_count_not_exact_ceiling:
  "get_contracts_by_inn huge_world sample_inn =
     (Inr (Triple (JStr (ascii ''RZD'')) (JInt 9007199254740993) []),
      huge_world\<lparr>requests :=
        [supplier_url sample_inn, contracts_url sample_inn,
         page_url (contracts_url sample_inn) 1]\<rparr>)
   \<and> \<lceil>rat_of_int 9007199254740993 / rat_of_int 9007199254740992\<rceil> = 2"
proof -
  have first: "remote (huge_world\<lparr>requests := [supplier_url sample_inn]\<rparr>)
      (requests (huge_world\<lparr>requests := [supplier_url sample_inn]\<rparr>)) (contracts_url sample_inn) =
    ok (contracts_response 9007199254740993 9007199254740992 [])"
    by (simp add: huge_world_def huge_remote_def)
  have pages: "ceil_div (JInt 9007199254740993) (JInt 9007199254740992) = Inr 1"
    by (simp add: ceil_div_def true_div_huge)
  have one: "[1..1] = [1::int]" by (simp add: upto.simps)
  have "get_contracts_by_inn huge_world sample_inn =
     (Inr (Triple (JStr (ascii ''RZD'')) (JInt 9007199254740993) []),
      huge_world\<lparr>requests :=
        [supplier_url sample_inn, contracts_url sample_inn,
         page_url (contracts_url sample_inn) 1]\<rparr>)"
    using first
    by (simp add: get_contracts_by_inn_def huge_lookup RZD_is_a_name requests_get_def ok_def
        contracts_response_def response_json_def pages one huge_page)
  moreover have "\<lceil>rat_of_int 9007199254740993 / rat_of_int 9007199254740992\<rceil> = (2::int)"
    by (simp add: ceiling_unique)
  ultimately show ?thesis by simp
qed

subsection \<open>Order\<close>





end
